theory Spec2Isabelle
  imports Complex_Main "HOL-Library.AList"
begin

section \<open>Session store (src/core/sessions.js)\<close>

text \<open>
  A chat message is the object \<open>{role, content}\<close>. A session is the object built by
  \<open>createSession\<close>. Fields that the code tests for presence (\<open>sessionNumber\<close>,
  \<open>chatUrls\<close>, \<open>apiChatHistory\<close>) or that may be \<open>null\<close> (\<open>name\<close>, \<open>mode\<close>) are
  options. Objects used as dictionaries are association lists in key insertion order,
  the order in which \<open>Object.keys\<close> enumerates them; they hold the object's own
  properties.
\<close>

record message =
  role :: string
  content :: string

record session =
  id' :: string
  name :: "string option"
  sessionNumber :: "int option"
  selectedAIs :: "string list"
  mode :: "string option"
  chatUrls :: "(string \<times> string) list option"
  apiChatHistory :: "(string \<times> message list) list option"
  promptDraft :: string
  createdAt :: int

datatype log_entry = LogError string | LogWarn string | LogInfo string

record js_error =
  err_name :: string
  err_message :: string

text \<open>The \<open>TypeError\<close> the engine throws; its message is not modelled.\<close>

definition typeError :: js_error where
  "typeError = \<lparr>err_name = ''TypeError'', err_message = []\<rparr>"

subsection \<open>The session counter\<close>

text \<open>
  \<open>sessionCounter\<close> is a JavaScript number: it starts at 0, is replaced by the result of
  \<open>parseInt\<close> when the sessions are loaded, and is changed by \<open>++\<close> only. Its values are
  therefore \<open>NaN\<close>, the infinities and the integers that are doubles. \<open>x++\<close> stores
  \<open>x + 1\<close> rounded to the nearest double, ties to the even significand: \<open>NaN\<close> and the
  infinities stay, and an integer of more than 53 bits is rounded to 53 significant
  bits.
\<close>

datatype jsnumber = NaN | PosInfinity | NegInfinity | Finite int

fun bitLength :: "nat \<Rightarrow> nat" where
  "bitLength n = (if n = 0 then 0 else Suc (bitLength (n div 2)))"

declare bitLength.simps [simp del]

definition roundToDouble :: "int \<Rightarrow> int" where
  "roundToDouble m =
     (let a = nat \<bar>m\<bar>;
          k = bitLength a - 53;
          q = a div 2 ^ k;
          r = a mod 2 ^ k;
          v = int ((if 2 ^ k < 2 * r \<or> (2 * r = 2 ^ k \<and> odd q) then q + 1 else q) * 2 ^ k)
      in if k = 0 then m else if m < 0 then - v else v)"

definition increment :: "jsnumber \<Rightarrow> jsnumber" where
  "increment x = (case x of Finite n \<Rightarrow> Finite (roundToDouble (n + 1)) | _ \<Rightarrow> x)"

subsection \<open>Module state and host\<close>

text \<open>
  The module state of sessions.js (\<open>sessions\<close>, \<open>currentSessionId\<close>, \<open>sessionCounter\<close>)
  together with the browser's \<open>localStorage\<close>. \<open>writes\<close> records every \<open>setItem\<close> call
  in order, whether it succeeded or threw; \<open>logs\<close> is the logger's output. The type of
  the elements of \<open>sessions\<close> and of the pointer is a parameter: the application works
  on session objects and a pointer that is a string or \<open>null\<close> (\<open>store\<close>), while
  \<open>loadSessionsFromStorage\<close> works on whatever \<open>JSON.parse\<close> returned.
\<close>

record ('s, 'p) module_state =
  sessions :: "'s list"
  currentSessionId :: 'p
  sessionCounter :: jsnumber
  localStorage :: "string \<rightharpoonup> string"
  writes :: "(string \<times> string) list"
  logs :: "log_entry list"

type_synonym store = "(session, string option) module_state"

text \<open>
  A JSON value as \<open>JSON.parse\<close> returns it, and \<open>undefined\<close>, which reading a missing
  property yields. An array carries its elements and the named properties assigned to
  it later; an object carries its own properties.
\<close>

datatype json =
    JUndefined
  | JNull
  | JBool bool
  | JNumber rat
  | JString string
  | JArray "json list" "(string \<times> json) list"
  | JObject "(string \<times> json) list"

text \<open>
  What the code takes from its host: the clock, \<open>JSON.stringify\<close> of the session array,
  \<open>JSON.parse\<close> (the value, or the exception thrown), \<open>parseInt\<close>, the conversion of a
  number to a string, the quota behaviour of \<open>localStorage.setItem\<close> (the exception it
  throws for a given content, key and value, if any) and the after-save hook registered
  with \<open>setOnAfterSave\<close>, which observes the sessions and may throw.
\<close>

record env =
  now :: int
  stringify :: "session list \<Rightarrow> string"
  parse :: "string \<Rightarrow> js_error + json"
  parseInt :: "string \<Rightarrow> jsnumber"
  numberToString :: "jsnumber \<Rightarrow> string"
  setItemThrows :: "(string \<rightharpoonup> string) \<Rightarrow> string \<Rightarrow> string \<Rightarrow> js_error option"
  onAfterSave :: "(session list \<Rightarrow> js_error option) option"

definition SESSIONS :: string where "SESSIONS = ''oneprompt-sessions''"
definition CURRENT_SESSION :: string where "CURRENT_SESSION = ''oneprompt-current-session''"
definition SESSION_COUNTER :: string where "SESSION_COUNTER = ''oneprompt-session-counter''"
definition DEFAULT_MODE :: string where "DEFAULT_MODE = ''oneprompt-default-mode''"

definition defaultServices_cfg :: "string list" where
  "defaultServices_cfg = [''perplexity'', ''copilot'']"
definition defaultMode_cfg :: string where "defaultMode_cfg = ''web''"
definition maxHistoryPerAI :: nat where "maxHistoryPerAI = 6"

subsection \<open>JavaScript helpers\<close>

text \<open>Truthiness of a value that is a string or \<open>null\<close>: \<open>null\<close> and \<open>''\<close> are falsy.\<close>

definition truthy :: "string option \<Rightarrow> bool" where
  "truthy v = (case v of None \<Rightarrow> False | Some s \<Rightarrow> s \<noteq> [])"

text \<open>\<open>a || b\<close> on such values.\<close>

definition orElse :: "string option \<Rightarrow> string option \<Rightarrow> string option" where
  "orElse a b = (if truthy a then a else b)"

text \<open>\<open>Array.prototype.slice(-n)\<close> for \<open>n > 0\<close>: the last \<open>n\<close> elements, all if fewer.\<close>

definition sliceLast :: "nat \<Rightarrow> 'a list \<Rightarrow> 'a list" where
  "sliceLast n xs = drop (length xs - n) xs"

text \<open>\<open>Array.from(new Set(xs))\<close>: the first occurrence of each element, in order.\<close>

definition arrayFromSet :: "string list \<Rightarrow> string list" where
  "arrayFromSet xs = rev (remdups (rev xs))"

text \<open>A statement applied to the first element that satisfies a test.\<close>

fun updateFirst :: "('a \<Rightarrow> bool) \<Rightarrow> ('a \<Rightarrow> 'a) \<Rightarrow> 'a list \<Rightarrow> 'a list" where
  "updateFirst P f [] = []"
| "updateFirst P f (x # xs) = (if P x then f x # xs else x # updateFirst P f xs)"

text \<open>\<open>Math.max(...ns)\<close> on a non-empty list of integers.\<close>

definition maxOf :: "int list \<Rightarrow> int" where
  "maxOf ns = fold max (tl ns) (hd ns)"

subsection \<open>createSession\<close>

text \<open>
  \<open>createSession(name, selectedAIsSet, mode)\<close> increments the module's \<open>sessionCounter\<close>,
  computes the session number from the live sessions, reads the default mode from
  \<open>localStorage\<close> when no mode is given, and returns the new object. The model returns
  the object and the module state after the call.
\<close>

definition existingNumbers :: "session list \<Rightarrow> int list" where
  "existingNumbers ss =
     filter (\<lambda>n. n > 0) (map (\<lambda>s. case sessionNumber s of None \<Rightarrow> 0 | Some n \<Rightarrow> n) ss)"

definition nextNumber :: "session list \<Rightarrow> int" where
  "nextNumber ss =
     (if length (existingNumbers ss) > 0 then maxOf (existingNumbers ss) + 1 else 1)"

definition initialMode :: "('s, 'p) module_state \<Rightarrow> string option \<Rightarrow> string option" where
  "initialMode st m =
     (if \<not> truthy m then
        (let defaultMode = localStorage st DEFAULT_MODE in
         if truthy defaultMode \<and> defaultMode \<noteq> Some ''ask'' then defaultMode else m)
      else m)"

definition createSession ::
  "env \<Rightarrow> string option \<Rightarrow> string list option \<Rightarrow> string option \<Rightarrow> (session, 'p) module_state
     \<Rightarrow> session \<times> (session, 'p) module_state" where
  "createSession e nm selectedAIsSet m st =
     (let st1 = st\<lparr>sessionCounter := increment (sessionCounter st)\<rparr>;
          im = initialMode st1 m
      in (\<lparr> id' = ''session-'' @ numberToString e (Finite (now e)) @ ''-''
                    @ numberToString e (sessionCounter st1),
            name = orElse nm None,
            sessionNumber = Some (nextNumber (sessions st1)),
            selectedAIs = (case selectedAIsSet of None \<Rightarrow> [] | Some xs \<Rightarrow> xs),
            mode = orElse im None,
            chatUrls = Some [],
            apiChatHistory = Some [],
            promptDraft = [],
            createdAt = now e \<rparr>, st1))"


subsection \<open>Accessors and list mutation\<close>

definition getCurrentSession :: "store \<Rightarrow> session option" where
  "getCurrentSession st =
     (case find (\<lambda>s. Some (id' s) = currentSessionId st) (sessions st) of
        Some s \<Rightarrow> Some s
      | None \<Rightarrow> (case sessions st of [] \<Rightarrow> None | s # _ \<Rightarrow> Some s))"

definition setCurrentSessionId :: "string option \<Rightarrow> store \<Rightarrow> store" where
  "setCurrentSessionId sessionId st = st\<lparr>currentSessionId := sessionId\<rparr>"

definition addSession :: "session \<Rightarrow> store \<Rightarrow> store" where
  "addSession s st = st\<lparr>sessions := sessions st @ [s]\<rparr>"

text \<open>\<open>removeSession\<close>: \<open>findIndex\<close> then \<open>splice(index, 1)\<close> removes the first session with the id.\<close>

fun removeFirst :: "('a \<Rightarrow> bool) \<Rightarrow> 'a list \<Rightarrow> 'a list" where
  "removeFirst P [] = []"
| "removeFirst P (x # xs) = (if P x then xs else x # removeFirst P xs)"

definition removeSession :: "string \<Rightarrow> store \<Rightarrow> bool \<times> store" where
  "removeSession sessionId st =
     (if list_ex (\<lambda>s. id' s = sessionId) (sessions st)
      then (True, st\<lparr>sessions := removeFirst (\<lambda>s. id' s = sessionId) (sessions st)\<rparr>)
      else (False, st))"

subsection \<open>Exceptions and logging\<close>

text \<open>
  A statement that may throw maps the module state to the exception thrown, if any, and
  the state at that point: mutations made before a throw stay.
\<close>

type_synonym ('s, 'p) statement =
  "('s, 'p) module_state \<Rightarrow> js_error option \<times> ('s, 'p) module_state"

type_synonym action = "(session, string option) statement"

definition ret :: "('s, 'p) statement" where
  "ret st = (None, st)"

definition seq :: "('s, 'p) statement \<Rightarrow> ('s, 'p) statement \<Rightarrow> ('s, 'p) statement" where
  "seq f g st = (case f st of (Some err, st1) \<Rightarrow> (Some err, st1) | (None, st1) \<Rightarrow> g st1)"

definition tryCatch ::
  "('s, 'p) statement \<Rightarrow> (js_error \<Rightarrow> ('s, 'p) statement) \<Rightarrow> ('s, 'p) statement" where
  "tryCatch body handler st =
     (case body st of (None, st1) \<Rightarrow> (None, st1) | (Some err, st1) \<Rightarrow> handler err st1)"

definition logger :: "log_entry \<Rightarrow> ('s, 'p) statement" where
  "logger entry st = (None, st\<lparr>logs := logs st @ [entry]\<rparr>)"

definition setItem :: "env \<Rightarrow> string \<Rightarrow> string \<Rightarrow> ('s, 'p) statement" where
  "setItem e k v st =
     (let st1 = st\<lparr>writes := writes st @ [(k, v)]\<rparr>
      in case setItemThrows e (localStorage st) k v of
           Some err \<Rightarrow> (Some err, st1)
         | None \<Rightarrow> (None, st1\<lparr>localStorage := (localStorage st)(k \<mapsto> v)\<rparr>))"

subsection \<open>trimAllApiHistory\<close>

definition trimHistory :: "nat \<Rightarrow> message list \<Rightarrow> message list" where
  "trimHistory maxMessages history =
     (if length history > maxMessages then sliceLast maxMessages history else history)"

definition trimSession :: "nat \<Rightarrow> session \<Rightarrow> session" where
  "trimSession maxMessages s =
     (case apiChatHistory s of
        None \<Rightarrow> s
      | Some hs \<Rightarrow> s\<lparr>apiChatHistory := Some (map (\<lambda>(aiKey, h). (aiKey, trimHistory maxMessages h)) hs)\<rparr>)"

definition sessionFreed :: "nat \<Rightarrow> session \<Rightarrow> bool" where
  "sessionFreed maxMessages s =
     (case apiChatHistory s of
        None \<Rightarrow> False
      | Some hs \<Rightarrow> list_ex (\<lambda>(aiKey, h). length h > maxMessages) hs)"

text \<open>Returns \<open>freed\<close> (whether any history was cut) and the store with the histories cut.\<close>

definition trimAllApiHistory :: "nat \<Rightarrow> store \<Rightarrow> bool \<times> store" where
  "trimAllApiHistory maxMessages st =
     (list_ex (sessionFreed maxMessages) (sessions st),
      st\<lparr>sessions := map (trimSession maxMessages) (sessions st)\<rparr>)"

subsection \<open>saveSessionsToStorage\<close>

definition isQuotaError :: "js_error \<Rightarrow> bool" where
  "isQuotaError err =
     (err_name err = ''QuotaExceededError'' \<or> err_name err = ''NS_ERROR_DOM_QUOTA_REACHED'')"

definition currentSessionIdString :: "store \<Rightarrow> string" where
  "currentSessionIdString st = (case currentSessionId st of None \<Rightarrow> ''null'' | Some s \<Rightarrow> s)"

definition runAfterSaveHook :: "env \<Rightarrow> action" where
  "runAfterSaveHook e st =
     (case onAfterSave e of
        None \<Rightarrow> (None, st)
      | Some hook \<Rightarrow>
          tryCatch (\<lambda>st1. (hook (sessions st1), st1))
                   (\<lambda>hookError. logger (LogError ''onAfterSave hook failed:'')) st)"

text \<open>The body of the \<open>try\<close> block.\<close>

definition saveBody :: "env \<Rightarrow> action option \<Rightarrow> action" where
  "saveBody e captureUrlsFn =
     seq (case captureUrlsFn of None \<Rightarrow> ret | Some f \<Rightarrow> f)
    (seq (\<lambda>st. setItem e SESSIONS (stringify e (sessions st)) st)
    (seq (\<lambda>st. setItem e CURRENT_SESSION (currentSessionIdString st) st)
    (seq (\<lambda>st. setItem e SESSION_COUNTER (numberToString e (sessionCounter st)) st)
         (runAfterSaveHook e))))"

text \<open>The retry inside the \<open>catch\<close> block, run only when \<open>freed\<close> is true.\<close>

definition retrySave :: "env \<Rightarrow> action" where
  "retrySave e =
     tryCatch (seq (\<lambda>st. setItem e SESSIONS (stringify e (sessions st)) st)
                   (logger (LogInfo ''Sessions saved after trimming.'')))
              (\<lambda>retryError. logger (LogError ''Still failed after trimming:''))"

definition quotaRecovery :: "env \<Rightarrow> action" where
  "quotaRecovery e st =
     (case trimAllApiHistory maxHistoryPerAI st of
        (freed, st1) \<Rightarrow> if freed then retrySave e st1 else (None, st1))"

definition saveSessionsToStorage :: "env \<Rightarrow> action option \<Rightarrow> action" where
  "saveSessionsToStorage e captureUrlsFn =
     tryCatch (saveBody e captureUrlsFn)
       (\<lambda>error. seq (logger (LogError ''Failed to save sessions to storage:''))
                  (if isQuotaError error
                   then seq (logger (LogWarn ''Storage quota exceeded. Attempting to trim history...''))
                            (quotaRecovery e)
                   else ret))"

subsection \<open>loadSessionsFromStorage\<close>

text \<open>
  \<open>loadSessionsFromStorage\<close> assigns to \<open>sessions\<close> whatever \<open>JSON.parse\<close> returns and then
  reads and writes properties of its elements, so it is modelled on JSON values. The
  three properties it touches are \<open>id\<close>, \<open>sessionNumber\<close> and \<open>apiChatHistory\<close>; none of
  them is inherited from a prototype or built into arrays and strings.
\<close>

datatype field = Id | SessionNumber | ApiChatHistory

definition fieldName :: "field \<Rightarrow> string" where
  "fieldName f = (case f of Id \<Rightarrow> ''id'' | SessionNumber \<Rightarrow> ''sessionNumber''
                  | ApiChatHistory \<Rightarrow> ''apiChatHistory'')"

text \<open>
  Reading \<open>v.f\<close>: a \<open>TypeError\<close> on \<open>null\<close> and \<open>undefined\<close>, the own property of an object
  or array, \<open>undefined\<close> when there is none and on numbers, strings and booleans.
\<close>

definition getProp :: "json \<Rightarrow> field \<Rightarrow> js_error + json" where
  "getProp v f =
     (case v of
        JUndefined \<Rightarrow> Inl typeError
      | JNull \<Rightarrow> Inl typeError
      | JObject ps \<Rightarrow> Inr (case map_of ps (fieldName f) of Some x \<Rightarrow> x | None \<Rightarrow> JUndefined)
      | JArray es ps \<Rightarrow> Inr (case map_of ps (fieldName f) of Some x \<Rightarrow> x | None \<Rightarrow> JUndefined)
      | _ \<Rightarrow> Inr JUndefined)"

text \<open>
  Assigning \<open>v.f = x\<close> in a module (strict mode): objects and arrays take the property,
  every other value makes the assignment throw a \<open>TypeError\<close>.
\<close>

definition setProp :: "json \<Rightarrow> field \<Rightarrow> json \<Rightarrow> js_error + json" where
  "setProp v f x =
     (case v of
        JObject ps \<Rightarrow> Inr (JObject (AList.update (fieldName f) x ps))
      | JArray es ps \<Rightarrow> Inr (JArray es (AList.update (fieldName f) x ps))
      | _ \<Rightarrow> Inl typeError)"

definition jsTruthy :: "json \<Rightarrow> bool" where
  "jsTruthy v =
     (case v of
        JUndefined \<Rightarrow> False
      | JNull \<Rightarrow> False
      | JBool b \<Rightarrow> b
      | JNumber r \<Rightarrow> r \<noteq> 0
      | JString s \<Rightarrow> s \<noteq> []
      | _ \<Rightarrow> True)"

text \<open>
  \<open>a === b\<close> where \<open>b\<close> is the current-session pointer as \<open>localStorage.getItem\<close> or the
  application left it, a string or \<open>null\<close>: equal primitives are identical, and no
  object or array is identical to it.
\<close>

definition strictEquals :: "json \<Rightarrow> json \<Rightarrow> bool" where
  "strictEquals a b =
     (case a of JArray es ps \<Rightarrow> False | JObject ps \<Rightarrow> False | _ \<Rightarrow> a = b)"

text \<open>\<open>Object.keys(v).length\<close> for a value that is not \<open>null\<close> or \<open>undefined\<close>.\<close>

definition keysCount :: "json \<Rightarrow> nat" where
  "keysCount v =
     (case v of
        JObject ps \<Rightarrow> length (remdups (map fst ps))
      | JArray es ps \<Rightarrow> length es + length (remdups (map fst ps))
      | JString s \<Rightarrow> length s
      | _ \<Rightarrow> 0)"

text \<open>
  \<open>sessions.filter(s => s.apiChatHistory && Object.keys(s.apiChatHistory).length > 0).length\<close>
  on the elements of an array: the callback throws on an element that is \<open>null\<close>.
\<close>

fun countWithHistory :: "json list \<Rightarrow> js_error + nat" where
  "countWithHistory [] = Inr 0"
| "countWithHistory (s # ss) =
     (case getProp s ApiChatHistory of
        Inl err \<Rightarrow> Inl err
      | Inr h \<Rightarrow>
          (case countWithHistory ss of
             Inl err \<Rightarrow> Inl err
           | Inr n \<Rightarrow> Inr (if jsTruthy h \<and> keysCount h > 0 then Suc n else n)))"

text \<open>
  The argument of the \<open>logger.log\<close> call in the \<open>try\<close> block: \<open>sessions.length\<close> throws on
  \<open>null\<close>, and \<open>sessions.filter\<close> is a function on arrays only.
\<close>

definition loadedSummary :: "json \<Rightarrow> js_error + nat" where
  "loadedSummary v = (case v of JArray es ps \<Rightarrow> countWithHistory es | _ \<Rightarrow> Inl typeError)"

record load_options =
  opt_defaultServices :: "string list option"
  opt_defaultMode :: "string option"

text \<open>A session object and the pointer of the application, seen as JSON values.\<close>

definition encodeMessage :: "message \<Rightarrow> json" where
  "encodeMessage m = JObject [(''role'', JString (role m)), (''content'', JString (content m))]"

definition encodeOption :: "string option \<Rightarrow> json" where
  "encodeOption v = (case v of None \<Rightarrow> JNull | Some s \<Rightarrow> JString s)"

definition encodeSession :: "session \<Rightarrow> json" where
  "encodeSession s =
     JObject
       ([(''id'', JString (id' s)), (''name'', encodeOption (name s))]
        @ (case sessionNumber s of None \<Rightarrow> [] | Some n \<Rightarrow> [(''sessionNumber'', JNumber (of_int n))])
        @ [(''selectedAIs'', JArray (map JString (selectedAIs s)) []),
           (''mode'', encodeOption (mode s))]
        @ (case chatUrls s of None \<Rightarrow> []
           | Some us \<Rightarrow> [(''chatUrls'', JObject (map (\<lambda>(k, u). (k, JString u)) us))])
        @ (case apiChatHistory s of None \<Rightarrow> []
           | Some hs \<Rightarrow> [(''apiChatHistory'',
                          JObject (map (\<lambda>(k, h). (k, JArray (map encodeMessage h) [])) hs))])
        @ [(''promptDraft'', JString (promptDraft s)), (''createdAt'', JNumber (of_int (createdAt s)))])"

definition toJson :: "store \<Rightarrow> (json, json) module_state" where
  "toJson st =
     \<lparr> sessions = map encodeSession (sessions st),
       currentSessionId = encodeOption (currentSessionId st),
       sessionCounter = sessionCounter st,
       localStorage = localStorage st,
       writes = writes st,
       logs = logs st \<rparr>"

text \<open>
  The \<open>try\<close> block that reads the three keys. \<open>JSON.parse\<close> may throw; the pointer and
  the counter are assigned before the logging call, which throws unless the parsed
  value is an array without \<open>null\<close> elements. While the value is not an array the
  variable \<open>sessions\<close> holds it only until the \<open>catch\<close> block replaces it by \<open>[]\<close>.
\<close>

definition readStored :: "env \<Rightarrow> string \<Rightarrow> (json, json) statement" where
  "readStored e storedSessions st =
     (case parse e storedSessions of
        Inl err \<Rightarrow> (Some err, st)
      | Inr v \<Rightarrow>
          (let st1 = st\<lparr>sessions := (case v of JArray es ps \<Rightarrow> es | _ \<Rightarrow> []),
                        currentSessionId := encodeOption (localStorage st CURRENT_SESSION),
                        sessionCounter :=
                          parseInt e (case orElse (localStorage st SESSION_COUNTER) (Some ''0'') of
                                        Some c \<Rightarrow> c | None \<Rightarrow> ''0'')\<rparr>
           in case loadedSummary v of
                Inl err \<Rightarrow> (Some err, st1)
              | Inr n \<Rightarrow> logger (LogInfo ''[loadSessionsFromStorage] Loaded sessions:'') st1))"

definition loadStored :: "env \<Rightarrow> (json, json) statement" where
  "loadStored e st =
     (let storedSessions = localStorage st SESSIONS
      in if truthy storedSessions
         then tryCatch (readStored e (case storedSessions of Some v \<Rightarrow> v | None \<Rightarrow> []))
                (\<lambda>error. seq (logger (LogError ''[loadSessionsFromStorage] Failed to parse stored sessions:''))
                           (\<lambda>st1. (None, st1\<lparr>sessions := []\<rparr>))) st
         else (None, st))"

text \<open>
  \<open>sessions.find(s => s.id === currentSessionId)\<close>: the first element whose \<open>id\<close> is the
  pointer, or the exception the callback throws.
\<close>

fun findById :: "json \<Rightarrow> json list \<Rightarrow> js_error + json option" where
  "findById p [] = Inr None"
| "findById p (s # ss) =
     (case getProp s Id of
        Inl err \<Rightarrow> Inl err
      | Inr i \<Rightarrow> if strictEquals i p then Inr (Some s) else findById p ss)"

text \<open>
  The branch taken when the list is empty: the default session is created, pushed and
  made current, and the sessions are saved. The list holds session objects only, so the
  store's own functions apply.
\<close>

definition createDefaultSession ::
  "env \<Rightarrow> string list \<Rightarrow> string \<Rightarrow> (json, json) statement" where
  "createDefaultSession e defaultServices defaultMode st =
     (case createSession e None (Some (arrayFromSet defaultServices)) (Some defaultMode)
             \<lparr> sessions = [], currentSessionId = currentSessionId st,
               sessionCounter = sessionCounter st, localStorage = localStorage st,
               writes = writes st, logs = logs st \<rparr> of
        (defaultSession, st1) \<Rightarrow>
          (case saveSessionsToStorage e None
                  \<lparr> sessions = sessions st1 @ [defaultSession],
                    currentSessionId = Some (id' defaultSession),
                    sessionCounter = sessionCounter st1, localStorage = localStorage st1,
                    writes = writes st1, logs = logs st1 \<rparr> of
             (r, st2) \<Rightarrow> (r, toJson st2)))"

definition ensureSession :: "env \<Rightarrow> string list \<Rightarrow> string \<Rightarrow> (json, json) statement" where
  "ensureSession e defaultServices defaultMode st =
     (if length (sessions st) = 0 then createDefaultSession e defaultServices defaultMode st
      else
        (case findById (currentSessionId st) (sessions st) of
           Inl err \<Rightarrow> (Some err, st)
         | Inr validSession \<Rightarrow>
             if (case validSession of None \<Rightarrow> False | Some v \<Rightarrow> jsTruthy v) then (None, st)
             else
               (case getProp (hd (sessions st)) Id of
                  Inl err \<Rightarrow> (Some err, st)
                | Inr i \<Rightarrow>
                    logger (LogInfo ''[loadSessionsFromStorage] Fixed invalid currentSessionId, now:'')
                      (st\<lparr>currentSessionId := i\<rparr>))))"

text \<open>
  The \<open>forEach\<close> that gives \<open>index + 1\<close> to every element whose \<open>sessionNumber\<close> is falsy;
  the first argument is the index of the head of the list. On a throw the elements
  before the failing one keep their new numbers.
\<close>

fun repairNumbers :: "nat \<Rightarrow> json list \<Rightarrow> js_error option \<times> json list" where
  "repairNumbers i [] = (None, [])"
| "repairNumbers i (s # ss) =
     (case getProp s SessionNumber of
        Inl err \<Rightarrow> (Some err, s # ss)
      | Inr n \<Rightarrow>
          if jsTruthy n
          then (case repairNumbers (Suc i) ss of (r, ss1) \<Rightarrow> (r, s # ss1))
          else (case setProp s SessionNumber (JNumber (of_nat i + 1)) of
                  Inl err \<Rightarrow> (Some err, s # ss)
                | Inr s1 \<Rightarrow> (case repairNumbers (Suc i) ss of (r, ss1) \<Rightarrow> (r, s1 # ss1))))"

text \<open>\<open>options.defaultServices || DEFAULT_CONFIG.defaultServices\<close> (an array is truthy).\<close>

definition defaultServicesOf :: "load_options \<Rightarrow> string list" where
  "defaultServicesOf options =
     (case opt_defaultServices options of Some xs \<Rightarrow> xs | None \<Rightarrow> defaultServices_cfg)"

text \<open>\<open>options.defaultMode || DEFAULT_CONFIG.defaultMode\<close>.\<close>

definition defaultModeOf :: "load_options \<Rightarrow> string" where
  "defaultModeOf options =
     (case orElse (opt_defaultMode options) (Some defaultMode_cfg) of
        Some m \<Rightarrow> m | None \<Rightarrow> defaultMode_cfg)"

text \<open>
  \<open>loadSessionsFromStorage\<close> on the module state the application left (\<open>[]\<close>, \<open>null\<close> and
  0 at start-up); the result is the exception thrown, if any, and the module state with
  the loaded values.
\<close>

definition loadSessionsFromStorage ::
  "env \<Rightarrow> load_options \<Rightarrow> store \<Rightarrow> js_error option \<times> (json, json) module_state" where
  "loadSessionsFromStorage e options st =
     seq (loadStored e)
    (seq (ensureSession e (defaultServicesOf options) (defaultModeOf options))
         (\<lambda>st1. case repairNumbers 0 (sessions st1) of
                  (r, ss) \<Rightarrow> (r, st1\<lparr>sessions := ss\<rparr>)))
       (toJson st)"






section \<open>Tabs (src/core/tabs.js)\<close>

text \<open>
  \<open>createNewSessionAndSwitch\<close>. The alert, the selection callback and the re-rendering
  act on the page, not on the store, and are left out.
\<close>

definition createNewSessionAndSwitch :: "env \<Rightarrow> action" where
  "createNewSessionAndSwitch e st =
     (if length (sessions st) \<ge> 20 then (None, st)
      else seq (saveSessionsToStorage e None)
             (\<lambda>st1. case createSession e None (Some []) None st1 of
                       (newSession, st2) \<Rightarrow>
                         saveSessionsToStorage e None
                           (setCurrentSessionId (Some (id' newSession)) (addSession newSession st2))) st)"

text \<open>
  \<open>switchToSession(sessionId)\<close>; \<open>promptInput\<close> is the text of the prompt box, \<open>None\<close> when
  the page has no prompt box. The current session object is the one \<open>getCurrentSession\<close>
  returns: the first session with the pointer's id, else the first session. Reading
  \<open>session.selectedAIs\<close> throws when there is no session at all. The re-rendering and
  the restoring of the draft act on the page and are left out.
\<close>

definition setPromptDraft :: "string \<Rightarrow> store \<Rightarrow> store" where
  "setPromptDraft v st =
     (case find (\<lambda>s. Some (id' s) = currentSessionId st) (sessions st) of
        Some s \<Rightarrow> st\<lparr>sessions := updateFirst (\<lambda>s. Some (id' s) = currentSessionId st)
                                     (\<lambda>s. s\<lparr>promptDraft := v\<rparr>) (sessions st)\<rparr>
      | None \<Rightarrow> (case sessions st of
                   [] \<Rightarrow> st
                 | s # ss \<Rightarrow> st\<lparr>sessions := s\<lparr>promptDraft := v\<rparr> # ss\<rparr>))"

definition switchToSession :: "env \<Rightarrow> string option \<Rightarrow> string \<Rightarrow> action" where
  "switchToSession e promptInput sessionId st =
     (if Some sessionId = currentSessionId st then (None, st)
      else seq (\<lambda>st0. (None, case promptInput of None \<Rightarrow> st0 | Some v \<Rightarrow> setPromptDraft v st0))
          (seq (saveSessionsToStorage e None)
          (seq (\<lambda>st1. (None, setCurrentSessionId (Some sessionId) st1))
          (seq (\<lambda>st2. case getCurrentSession st2 of
                         None \<Rightarrow> (Some typeError, st2) | Some session \<Rightarrow> (None, st2))
               (saveSessionsToStorage e None)))) st)"

section \<open>Session numbering in src/services/settings.js\<close>

text \<open>
  \<open>createNewSession\<close> in settings.js (and the inline fallback in renderer.js) computes the
  session number by gap finding: the numbers in use are the \<open>sessionNumber\<close>s that are
  numbers, and \<open>nextNumber\<close> counts up from 1 while it is in use.
\<close>

definition usedNumbers :: "session list \<Rightarrow> int list" where
  "usedNumbers ss = List.map_filter sessionNumber ss"

function gapFrom :: "int list \<Rightarrow> int \<Rightarrow> int" where
  "gapFrom used n = (if n \<in> set used then gapFrom used (n + 1) else n)"
  by pat_completeness auto
termination
proof (relation "measure (\<lambda>(used, n). length (filter (\<lambda>k. n \<le> k) used))")
  show "wf (measure (\<lambda>(used, n). length (filter (\<lambda>k. n \<le> k) used)))"
    by simp
next
  fix used :: "int list" and n :: int
  assume mem: "n \<in> set used"
  have "filter (\<lambda>k. n + 1 \<le> k) used = filter (\<lambda>k. n + 1 \<le> k) (filter (\<lambda>k. n \<le> k) used)"
    by (induction used) auto
  moreover have "length (filter (\<lambda>k. n + 1 \<le> k) (filter (\<lambda>k. n \<le> k) used))
                   < length (filter (\<lambda>k. n \<le> k) used)"
    by (rule length_filter_less [where x = n]) (use mem in auto)
  ultimately show "((used, n + 1), (used, n)) \<in> measure (\<lambda>(used, n). length (filter (\<lambda>k. n \<le> k) used))"
    by simp
qed

declare gapFrom.simps [simp del]

definition gapFindingNumber :: "session list \<Rightarrow> int" where
  "gapFindingNumber ss = gapFrom (usedNumbers ss) 1"

section \<open>API chat (src/unnamed/part_001) and prompt dispatch (src/app/prompt.js)\<close>

text \<open>
  The API chat module (\<open>@app/api-chat\<close>) receives its collaborators through \<open>initApiChat\<close>:
  \<open>getSessionsArray\<close> and \<open>getCurrentSessionId\<close> read the store, and the injected
  \<open>saveSessionsToStorage\<close> is the store's save, which the module calls without an
  argument. The message bubbles, loaders and status badges that the functions draw are
  not part of the store and are left out.
\<close>

definition API_HISTORY_LIMIT :: nat where "API_HISTORY_LIMIT = 12"

text \<open>A panel element: its \<open>data-ai-key\<close> and the \<open>data-session-id\<close> of the wrapper around it.\<close>

record panel =
  p_aiKey :: string
  p_sessionId :: "string option"

text \<open>
  \<open>apiChatHistory\<close> is a plain object, so reading \<open>apiChatHistory[aiKey]\<close> for a key it
  does not own finds the member of \<open>Object.prototype\<close> of that name, if there is one: a
  function, or \<open>Object.prototype\<close> itself for \<open>__proto__\<close>. Such a value is truthy and
  has neither \<open>push\<close> nor \<open>filter\<close>.
\<close>

definition objectPrototypeKeys :: "string list" where
  "objectPrototypeKeys =
     [''constructor'', ''__defineGetter__'', ''__defineSetter__'', ''hasOwnProperty'',
      ''__lookupGetter__'', ''__lookupSetter__'', ''isPrototypeOf'', ''propertyIsEnumerable'',
      ''toString'', ''valueOf'', ''__proto__'', ''toLocaleString'']"

text \<open>
  What \<open>saveApiHistory\<close> does to the session object it found: the history object is
  created when missing, the list is created when the lookup is falsy, the message is
  pushed, and a list longer than the limit is replaced by its last 12 entries. The push
  throws a \<open>TypeError\<close> when the lookup found a member of \<open>Object.prototype\<close>.
\<close>

definition pushMessage :: "string \<Rightarrow> message \<Rightarrow> session \<Rightarrow> js_error option \<times> session" where
  "pushMessage aiKey m s =
     (let hs = (case apiChatHistory s of None \<Rightarrow> [] | Some hs \<Rightarrow> hs)
      in case map_of hs aiKey of
           None \<Rightarrow>
             if aiKey \<in> set objectPrototypeKeys
             then (Some typeError, s\<lparr>apiChatHistory := Some hs\<rparr>)
             else (None, s\<lparr>apiChatHistory := Some (AList.update aiKey [m] hs)\<rparr>)
         | Some h \<Rightarrow>
             (let h1 = h @ [m];
                  h2 = (if length h1 > API_HISTORY_LIMIT then sliceLast API_HISTORY_LIMIT h1 else h1)
              in (None, s\<lparr>apiChatHistory := Some (AList.update aiKey h2 hs)\<rparr>)))"

text \<open>The statements of \<open>saveApiHistory\<close> before the save, on the session with the target id.\<close>

definition appendToHistory :: "string \<Rightarrow> message \<Rightarrow> string option \<Rightarrow> action" where
  "appendToHistory aiKey m targetSessionId st =
     (case find (\<lambda>s. Some (id' s) = targetSessionId) (sessions st) of
        None \<Rightarrow> (None, st)
      | Some session \<Rightarrow>
          (fst (pushMessage aiKey m session),
           st\<lparr>sessions := updateFirst (\<lambda>s. Some (id' s) = targetSessionId)
                               (\<lambda>s. snd (pushMessage aiKey m s)) (sessions st)\<rparr>))"

definition saveApiHistory :: "env \<Rightarrow> string \<Rightarrow> string \<Rightarrow> string \<Rightarrow> string option \<Rightarrow> action" where
  "saveApiHistory e aiKey rl ct sessionId st =
     (let targetSessionId = orElse sessionId (currentSessionId st)
      in case find (\<lambda>s. Some (id' s) = targetSessionId) (sessions st) of
           None \<Rightarrow> logger (LogWarn ''[saveApiHistory] Session not found'') st
         | Some session \<Rightarrow>
             seq (appendToHistory aiKey \<lparr>role = rl, content = ct\<rparr> targetSessionId)
                 (saveSessionsToStorage e None) st)"

text \<open>
  The list stored for a session id and a service: the own property \<open>aiKey\<close> of the
  \<open>apiChatHistory\<close> of the session found by id, \<open>[]\<close> when there is none.
\<close>

definition storedHistory :: "store \<Rightarrow> string option \<Rightarrow> string \<Rightarrow> message list" where
  "storedHistory st targetSessionId aiKey =
     (case find (\<lambda>s. Some (id' s) = targetSessionId) (sessions st) of
        None \<Rightarrow> []
      | Some s \<Rightarrow> (case apiChatHistory s of
                     None \<Rightarrow> []
                   | Some hs \<Rightarrow> (case map_of hs aiKey of None \<Rightarrow> [] | Some h \<Rightarrow> h)))"

definition appendApiMessage ::
  "env \<Rightarrow> panel \<Rightarrow> string \<Rightarrow> string \<Rightarrow> bool \<Rightarrow> string option \<Rightarrow> action" where
  "appendApiMessage e pnl rl text doSave sessionId st =
     (if doSave \<and> rl \<noteq> ''system''
      then saveApiHistory e (p_aiKey pnl) rl text
             (orElse (orElse sessionId (p_sessionId pnl)) (currentSessionId st)) st
      else (None, st))"

text \<open>
  \<open>handleApiChat\<close> is asynchronous. Up to its first \<open>await\<close> it fixes \<open>targetSessionId\<close>
  and shows the user message without saving it; a request is the suspended call with
  its local variables.
\<close>

record request =
  req_aiKey :: string
  req_prompt :: string
  req_panel :: panel
  req_target :: "string option"

definition handleApiChat_start ::
  "env \<Rightarrow> string \<Rightarrow> string \<Rightarrow> panel \<Rightarrow> string option \<Rightarrow> store \<Rightarrow> request \<times> store" where
  "handleApiChat_start e aiKey prompt pnl sessionId st =
     (let targetSessionId = orElse sessionId (currentSessionId st)
      in (\<lparr>req_aiKey = aiKey, req_prompt = prompt, req_panel = pnl, req_target = targetSessionId\<rparr>,
          snd (appendApiMessage e pnl ''user'' prompt False targetSessionId st)))"

text \<open>
  When the key check returns, the call ends with a system message if the check refuses;
  otherwise it builds the message array from
  \<open>session?.apiChatHistory?.[aiKey] || []\<close>, where \<open>filter\<close> throws on a member of
  \<open>Object.prototype\<close> (the call is then rejected), and sends the request.
\<close>

datatype checked = Refused | Rejected js_error | Sent "message list"

definition handleApiChat_checked :: "request \<Rightarrow> bool \<Rightarrow> store \<Rightarrow> checked" where
  "handleApiChat_checked req canProceed st =
     (if \<not> canProceed then Refused
      else
        (case find (\<lambda>s. Some (id' s) = req_target req) (sessions st) of
           None \<Rightarrow> Sent []
         | Some session \<Rightarrow>
             (case apiChatHistory session of
                None \<Rightarrow> Sent []
              | Some hs \<Rightarrow>
                  (case map_of hs (req_aiKey req) of
                     Some h \<Rightarrow>
                       Sent (sliceLast API_HISTORY_LIMIT
                               (filter (\<lambda>m. role m = ''user'' \<or> role m = ''assistant'') h))
                   | None \<Rightarrow>
                       if req_aiKey req \<in> set objectPrototypeKeys then Rejected typeError
                       else Sent []))))"

text \<open>
  What the awaited request delivers is an outcome: a response text, or an exception.
  The response is saved under the target fixed at the start and the sessions are saved
  once more; an exception thrown while saving is caught with the request's own.
\<close>

datatype outcome = Response string | Failure js_error

definition handleApiChat_finish :: "env \<Rightarrow> request \<Rightarrow> outcome \<Rightarrow> action" where
  "handleApiChat_finish e req out =
     (case out of
        Response responseText \<Rightarrow>
          tryCatch
            (seq (logger (LogInfo ''[handleApiChat] Saving assistant response''))
            (seq (appendApiMessage e (req_panel req) ''assistant'' responseText True (req_target req))
                 (saveSessionsToStorage e None)))
            (\<lambda>error. logger (LogError ''API Error''))
      | Failure error \<Rightarrow> logger (LogError ''API Error''))"

subsection \<open>sendPromptToSelectedAIs\<close>

text \<open>
  The \<open>map\<close> over the selected services in API mode, up to the point where every
  \<open>handleApiChat\<close> has suspended: the user message is saved under the captured session
  id and the request is started with the same id. A service without a panel is
  skipped. When \<open>saveApiHistory\<close> throws, the callback of that service is rejected and
  starts no request; the other callbacks run all the same. The result is the store, the
  requests started and the rejections.
\<close>

fun dispatchAll ::
  "env \<Rightarrow> string \<Rightarrow> string option \<Rightarrow> (string \<rightharpoonup> panel) \<Rightarrow> string list \<Rightarrow> store
     \<Rightarrow> store \<times> request list \<times> js_error list" where
  "dispatchAll e prompt capturedSessionId sessionWebviews [] st = (st, [], [])"
| "dispatchAll e prompt capturedSessionId sessionWebviews (aiKey # aiKeys) st =
     (case sessionWebviews aiKey of
        None \<Rightarrow>
          dispatchAll e prompt capturedSessionId sessionWebviews aiKeys
            (st\<lparr>logs := logs st @ [LogError ''Webview not found in current session'']\<rparr>)
      | Some webview \<Rightarrow>
          (case saveApiHistory e aiKey ''user'' prompt capturedSessionId
                  (st\<lparr>logs := logs st @ [LogInfo ''Handling API chat'']\<rparr>) of
             (Some err, st1) \<Rightarrow>
               (case dispatchAll e prompt capturedSessionId sessionWebviews aiKeys st1 of
                  (st2, reqs, errs) \<Rightarrow> (st2, reqs, err # errs))
           | (None, st1) \<Rightarrow>
               (case handleApiChat_start e aiKey prompt webview capturedSessionId st1 of
                  (req, st2) \<Rightarrow>
                    (case dispatchAll e prompt capturedSessionId sessionWebviews aiKeys st2 of
                       (st3, reqs, errs) \<Rightarrow> (st3, req # reqs, errs)))))"

text \<open>
  \<open>sendPromptToSelectedAIs\<close>: \<open>promptText\<close> is \<open>promptInput.value.trim()\<close>, \<open>None\<close> when the
  page has no prompt box; \<open>selected\<close> is the selected services in order, and
  \<open>sessionWebviews\<close> the panels of the current session. In web mode the callbacks only
  wait for the webviews and the store is not touched. A rejection is logged once, after
  all callbacks have run.
\<close>

definition sendPromptToSelectedAIs ::
  "env \<Rightarrow> string option \<Rightarrow> string list \<Rightarrow> (string \<rightharpoonup> panel) \<Rightarrow> store \<Rightarrow> store \<times> request list" where
  "sendPromptToSelectedAIs e promptText selected sessionWebviews st =
     (case promptText of
        None \<Rightarrow> (st, [])
      | Some prompt \<Rightarrow>
          if prompt = [] \<or> length selected = 0 then (st, [])
          else
            (let capturedSessionId = currentSessionId st;
                 isApiMode = (case getCurrentSession st of
                                None \<Rightarrow> False | Some s \<Rightarrow> mode s = Some ''api'')
             in if isApiMode
                then (case dispatchAll e prompt capturedSessionId sessionWebviews selected st of
                        (st1, reqs, errs) \<Rightarrow>
                          (if errs = [] then st1
                           else st1\<lparr>logs := logs st1 @ [LogError ''Errore invio prompt:'']\<rparr>, reqs))
                else (st\<lparr>logs := logs st @
                         map (\<lambda>k. LogError ''Webview not found in current session'')
                           (filter (\<lambda>k. sessionWebviews k = None) selected)\<rparr>, [])))"

subsection \<open>Notions used in the statements\<close>

text \<open>
  A host never reports a full storage when no exception of its \<open>setItem\<close> is a quota
  error; the \<open>try\<close> block of a save hits the quota when it ends in a quota error.
\<close>

definition neverQuota :: "env \<Rightarrow> bool" where
  "neverQuota e = (\<forall>m k v err. setItemThrows e m k v = Some err \<longrightarrow> \<not> isQuotaError err)"

definition quotaHit :: "env \<Rightarrow> store \<Rightarrow> bool" where
  "quotaHit e st = (case fst (saveBody e None st) of None \<Rightarrow> False | Some err \<Rightarrow> isQuotaError err)"

text \<open>
  Two relations between a list and a later state of it. \<open>kept q h h1\<close>: \<open>h1\<close> is \<open>h\<close>, or,
  if \<open>q\<close>, its last 6 entries. \<open>windowOf q h h1\<close>: \<open>h1\<close> is the last 12 entries of \<open>h\<close>, or,
  if \<open>q\<close>, its last \<open>n\<close> entries for some \<open>n\<close> from 6 to 12.
\<close>

definition kept :: "bool \<Rightarrow> 'a list \<Rightarrow> 'a list \<Rightarrow> bool" where
  "kept q h h1 = (h1 = h \<or> (q \<and> h1 = sliceLast 6 h))"

definition windowOf :: "bool \<Rightarrow> 'a list \<Rightarrow> 'a list \<Rightarrow> bool" where
  "windowOf q h h1 = (h1 = sliceLast 12 h \<or> (q \<and> (\<exists>n. 6 \<le> n \<and> n \<le> 12 \<and> h1 = sliceLast n h)))"

text \<open>The history of a service in a session object, \<open>[]\<close> when absent.\<close>

definition historyIn :: "session \<Rightarrow> string \<Rightarrow> message list" where
  "historyIn s k = (case apiChatHistory s of None \<Rightarrow> []
                    | Some hs \<Rightarrow> (case map_of hs k of None \<Rightarrow> [] | Some h \<Rightarrow> h))"

text \<open>Whether \<open>sessions.find(s => s.id === t)\<close> finds a session.\<close>

definition sessionExists :: "store \<Rightarrow> string option \<Rightarrow> bool" where
  "sessionExists st t = list_ex (\<lambda>s. Some (id' s) = t) (sessions st)"

text \<open>Appending a list of messages one after the other, each with a call of \<open>saveApiHistory\<close>.\<close>

fun appendAll :: "env \<Rightarrow> string \<Rightarrow> string option \<Rightarrow> message list \<Rightarrow> store \<Rightarrow> store" where
  "appendAll e aiKey sessionId [] st = st"
| "appendAll e aiKey sessionId (m # ms) st =
     appendAll e aiKey sessionId ms (snd (saveApiHistory e aiKey (role m) (content m) sessionId st))"

section \<open>Layout mode (src/unnamed/part_010) and resizer (src/unnamed/part_003)\<close>

text \<open>
  The part of the page the two modules read and write. A wrapper carries its service
  key, the inline styles the resizer sets and its rendered size. \<open>w_flex\<close> stands for
  \<open>style.flex\<close>: \<open>None\<close> is the empty string, \<open>Some r\<close> is \<open>r 1 0%\<close>. Pixel sizes and pointer
  coordinates are exact real numbers. The resizer handles, the overlay and the body
  classes are not modelled. \<open>sizeStorage\<close> is \<open>localStorage\<close>.
\<close>

record wrapper =
  w_aiKey :: string
  w_display :: string
  w_order :: int
  w_flex :: "real option"
  w_minWidth :: string
  w_minHeight :: string
  w_width :: real
  w_height :: real

record grid_el =
  classes :: "string list"
  gridTemplateColumns :: string
  gridTemplateRows :: string

record page =
  grid :: "grid_el option"
  wrappers :: "wrapper list"
  sizeStorage :: "string \<rightharpoonup> string"
  pageLogs :: "log_entry list"

text \<open>
  The host functions of the resizer: \<open>JSON.parse\<close> of a stored ratio map and of a stored
  grid record (\<open>None\<close> when it throws), and \<open>toFixed(3)\<close>.
\<close>

record layout_env =
  parseRatios :: "string \<Rightarrow> (string \<rightharpoonup> real) option"
  parseGridData :: "string \<Rightarrow> (string option \<times> string option) option"
  toFixed3 :: "real \<Rightarrow> string"

definition STORAGE_KEY_PREFIX :: string where
  "STORAGE_KEY_PREFIX = ''oneprompt-wrapper-sizes''"

definition LAYOUT_STORAGE_KEY :: string where
  "LAYOUT_STORAGE_KEY = ''oneprompt-layout-mode''"

definition LAYOUT_MODES :: "string list" where
  "LAYOUT_MODES = [''horizontal'', ''vertical'', ''grid'']"

definition DEFAULT_LAYOUT_MODE :: string where
  "DEFAULT_LAYOUT_MODE = ''horizontal''"

definition minSize :: real where "minSize = 150"

definition getCurrentLayoutMode :: "page \<Rightarrow> string" where
  "getCurrentLayoutMode pg =
     (case grid pg of
        None \<Rightarrow> ''horizontal''
      | Some g \<Rightarrow> if ''layout-vertical'' \<in> set (classes g) then ''vertical''
                  else if ''layout-grid'' \<in> set (classes g) then ''grid''
                  else ''horizontal'')"

definition getStorageKey :: "page \<Rightarrow> string" where
  "getStorageKey pg = STORAGE_KEY_PREFIX @ ''-'' @ getCurrentLayoutMode pg"

text \<open>The visible wrappers are those whose \<open>style.display\<close> is not \<open>none\<close>.\<close>

definition isVisible :: "wrapper \<Rightarrow> bool" where
  "isVisible w = (w_display w \<noteq> ''none'')"

text \<open>
  \<open>getVisibleWrappers\<close>, as positions in the list of wrappers: the visible ones, sorted
  by \<open>style.order\<close> (the sort is stable).
\<close>

definition getVisibleWrappers :: "page \<Rightarrow> nat list" where
  "getVisibleWrappers pg =
     sort_key (\<lambda>i. w_order (wrappers pg ! i))
       (filter (\<lambda>i. isVisible (wrappers pg ! i)) [0 ..< length (wrappers pg)])"

fun nextAfter :: "nat \<Rightarrow> nat list \<Rightarrow> nat option" where
  "nextAfter i [] = None"
| "nextAfter i [j] = None"
| "nextAfter i (j # k # js) = (if j = i then Some k else nextAfter i (k # js))"

definition getNextWrapper :: "page \<Rightarrow> nat \<Rightarrow> nat option" where
  "getNextWrapper pg i = nextAfter i (getVisibleWrappers pg)"

text \<open>A statement applied to every visible wrapper.\<close>

definition forVisible :: "(wrapper \<Rightarrow> wrapper) \<Rightarrow> page \<Rightarrow> page" where
  "forVisible f pg = pg\<lparr>wrappers := map (\<lambda>w. if isVisible w then f w else w) (wrappers pg)\<rparr>"

definition applyFlexRatios :: "(string \<rightharpoonup> real) \<Rightarrow> page \<Rightarrow> page" where
  "applyFlexRatios ratios pg =
     (let layoutMode = getCurrentLayoutMode pg
      in if layoutMode = ''grid'' then pg
         else forVisible
                (\<lambda>w. let ratio = (case ratios (w_aiKey w) of
                                     None \<Rightarrow> 1 | Some r \<Rightarrow> if r = 0 then 1 else r)
                      in if layoutMode = ''horizontal''
                         then w\<lparr>w_flex := Some ratio, w_minWidth := ''150px''\<rparr>
                         else if layoutMode = ''vertical''
                         then w\<lparr>w_flex := Some ratio, w_minHeight := ''150px''\<rparr>
                         else w) pg)"

definition restoreGridSizes :: "layout_env \<Rightarrow> page \<Rightarrow> page" where
  "restoreGridSizes le pg =
     (let stored = sizeStorage pg (getStorageKey pg)
      in if \<not> truthy stored then pg
         else (case parseGridData le (case stored of Some v \<Rightarrow> v | None \<Rightarrow> []) of
                 None \<Rightarrow> pg\<lparr>pageLogs := pageLogs pg @ [LogError ''[Resizer] Error restoring grid sizes:'']\<rparr>
               | Some (cols, rws) \<Rightarrow>
                   (case grid pg of
                      None \<Rightarrow> pg
                    | Some g \<Rightarrow>
                        pg\<lparr>grid := Some
                          (g\<lparr>gridTemplateColumns :=
                                (if truthy cols then (case cols of Some c \<Rightarrow> c | None \<Rightarrow> [])
                                 else gridTemplateColumns g),
                              gridTemplateRows :=
                                (if truthy rws then (case rws of Some r \<Rightarrow> r | None \<Rightarrow> [])
                                 else gridTemplateRows g)\<rparr>)\<rparr>)))"

definition restoreSizes :: "layout_env \<Rightarrow> page \<Rightarrow> page" where
  "restoreSizes le pg =
     (if getCurrentLayoutMode pg = ''grid'' then restoreGridSizes le pg
      else (let stored = sizeStorage pg (getStorageKey pg)
            in if \<not> truthy stored then pg
               else (case parseRatios le (case stored of Some v \<Rightarrow> v | None \<Rightarrow> []) of
                       None \<Rightarrow> pg\<lparr>pageLogs := pageLogs pg @ [LogError ''[Resizer] Error restoring ratios:'']\<rparr>
                     | Some ratios \<Rightarrow> applyFlexRatios ratios pg)))"

definition clearSizes :: "page \<Rightarrow> page" where
  "clearSizes pg =
     (let pg1 = forVisible (\<lambda>w. w\<lparr>w_flex := None, w_minWidth := [], w_minHeight := []\<rparr>) pg;
          pg2 = (case grid pg1 of
                   None \<Rightarrow> pg1
                 | Some g \<Rightarrow> pg1\<lparr>grid := Some (g\<lparr>gridTemplateColumns := [], gridTemplateRows := []\<rparr>)\<rparr>)
      in pg2\<lparr>sizeStorage := (sizeStorage pg2)(getStorageKey pg := None)\<rparr>)"

text \<open>
  \<open>initResizers\<close> creates the handles for the current mode and then restores the saved
  sizes; only the restoring changes the modelled page.
\<close>

definition initResizers :: "layout_env \<Rightarrow> page \<Rightarrow> page" where
  "initResizers le pg = restoreSizes le pg"

text \<open>
  \<open>onLayoutModeChange\<close> clears the sizes at once and schedules \<open>initResizers\<close> 50 ms
  later; the scheduled call is \<open>onLayoutModeChange_later\<close>.
\<close>

definition onLayoutModeChange :: "page \<Rightarrow> page" where
  "onLayoutModeChange pg = clearSizes pg"

definition onLayoutModeChange_later :: "layout_env \<Rightarrow> page \<Rightarrow> page" where
  "onLayoutModeChange_later le pg = initResizers le pg"

definition applyLayoutMode :: "string \<Rightarrow> page \<Rightarrow> page" where
  "applyLayoutMode md pg =
     (case grid pg of
        None \<Rightarrow> pg
      | Some g \<Rightarrow>
          pg\<lparr>grid := Some (g\<lparr>classes :=
                 filter (\<lambda>c. c \<notin> set [''layout-horizontal'', ''layout-vertical'', ''layout-grid''])
                   (classes g) @ [''layout-'' @ md]\<rparr>)\<rparr>)"

text \<open>The mode \<open>setLayoutMode\<close> uses: an invalid mode is replaced by the default.\<close>

definition effectiveMode :: "string \<Rightarrow> string" where
  "effectiveMode md = (if md \<in> set LAYOUT_MODES then md else DEFAULT_LAYOUT_MODE)"

text \<open>\<open>setLayoutMode\<close>; \<open>hasResizer\<close> tells whether \<open>window.OnePromptUI.resizer\<close> exists.\<close>

definition setLayoutMode :: "bool \<Rightarrow> string \<Rightarrow> page \<Rightarrow> page" where
  "setLayoutMode hasResizer md pg =
     (let md1 = effectiveMode md;
          pg1 = applyLayoutMode md1 (pg\<lparr>sizeStorage := (sizeStorage pg)(LAYOUT_STORAGE_KEY \<mapsto> md1)\<rparr>)
      in if hasResizer then onLayoutModeChange pg1 else pg1)"

subsection \<open>Dragging a divider\<close>

text \<open>
  The candidate sizes computed on a pointer move, from the two sizes captured when the
  drag started and the distance moved. \<open>onResize\<close> and \<open>onGridResize\<close> contain the same
  statements.
\<close>

definition candidateSizes :: "real \<Rightarrow> real \<Rightarrow> real \<Rightarrow> real \<times> real" where
  "candidateSizes startA startB delta =
     (let newSize1 = startA + delta;
          newSize2 = startB - delta;
          (newSize1, newSize2) =
             (if newSize1 < minSize then (minSize, startA + startB - minSize)
              else (newSize1, newSize2));
          (newSize1, newSize2) =
             (if newSize2 < minSize then (startA + startB - minSize, minSize)
              else (newSize1, newSize2))
      in (newSize1, newSize2))"

record resize_state =
  isResizing :: bool
  currentWrapper :: "nat option"
  nextWrapper :: "nat option"
  startPos :: "real \<times> real"
  startSizes :: "real \<times> real"
  resizeDirection :: "string option"

definition startResize :: "real \<times> real \<Rightarrow> nat \<Rightarrow> string \<Rightarrow> page \<Rightarrow> resize_state \<Rightarrow> resize_state" where
  "startResize pos i direction pg rs =
     (case getNextWrapper pg i of
        None \<Rightarrow> rs
      | Some n \<Rightarrow>
          \<lparr>isResizing = True, currentWrapper = Some i, nextWrapper = Some n, startPos = pos,
           startSizes =
             (if direction = ''vertical''
              then (w_height (wrappers pg ! i), w_height (wrappers pg ! n))
              else (w_width (wrappers pg ! i), w_width (wrappers pg ! n))),
           resizeDirection = Some direction\<rparr>)"

text \<open>\<open>onResize\<close> with the pointer at \<open>(clientX, clientY)\<close>.\<close>

definition onResize :: "resize_state \<Rightarrow> real \<times> real \<Rightarrow> page \<Rightarrow> page" where
  "onResize rs pos pg =
     (case (isResizing rs, currentWrapper rs, nextWrapper rs) of
        (True, Some c, Some n) \<Rightarrow>
          (let delta = (if resizeDirection rs = Some ''vertical''
                        then snd pos - snd (startPos rs) else fst pos - fst (startPos rs));
               (newCurrentSize, newNextSize) =
                  candidateSizes (fst (startSizes rs)) (snd (startSizes rs)) delta;
               totalSize = newCurrentSize + newNextSize;
               currentRatio = newCurrentSize / totalSize * 2;
               nextRatio = newNextSize / totalSize * 2;
               ws = wrappers pg
           in if resizeDirection rs = Some ''vertical''
              then pg\<lparr>wrappers :=
                     (ws[c := (ws ! c)\<lparr>w_flex := Some currentRatio, w_minHeight := ''150px''\<rparr>])
                       [n := (ws[c := (ws ! c)\<lparr>w_flex := Some currentRatio, w_minHeight := ''150px''\<rparr>] ! n)
                               \<lparr>w_flex := Some nextRatio, w_minHeight := ''150px''\<rparr>]\<rparr>
              else pg\<lparr>wrappers :=
                     (ws[c := (ws ! c)\<lparr>w_flex := Some currentRatio, w_minWidth := ''150px''\<rparr>])
                       [n := (ws[c := (ws ! c)\<lparr>w_flex := Some currentRatio, w_minWidth := ''150px''\<rparr>] ! n)
                               \<lparr>w_flex := Some nextRatio, w_minWidth := ''150px''\<rparr>]\<rparr>)
      | _ \<Rightarrow> pg)"

text \<open>
  \<open>onGridResize\<close>: the new sizes of all columns (or rows) for the divider between
  \<open>index\<close> and \<open>index + 1\<close>. A divider exists only between two columns, so
  \<open>index + 1\<close> is in range; otherwise there is no result.
\<close>

definition gridNewSizes :: "real list \<Rightarrow> nat \<Rightarrow> real \<Rightarrow> real list option" where
  "gridNewSizes sizes index delta =
     (if index + 1 < length sizes
      then (case candidateSizes (sizes ! index) (sizes ! (index + 1)) delta of
              (newSize1, newSize2) \<Rightarrow> Some (sizes[index := newSize1, index + 1 := newSize2]))
      else None)"

definition joinWith :: "string \<Rightarrow> string list \<Rightarrow> string" where
  "joinWith sep xs = (case xs of [] \<Rightarrow> [] | x # rest \<Rightarrow> x @ concat (map (\<lambda>y. sep @ y) rest))"

definition frTemplate :: "layout_env \<Rightarrow> real list \<Rightarrow> string" where
  "frTemplate le sizes =
     joinWith '' ''
       (map (\<lambda>w. toFixed3 le (w / sum_list sizes * real (length sizes)) @ ''fr'') sizes)"

definition applyGridTemplate :: "layout_env \<Rightarrow> real list \<Rightarrow> real list \<Rightarrow> page \<Rightarrow> page" where
  "applyGridTemplate le colWidths rowHeights pg =
     (case grid pg of
        None \<Rightarrow> pg
      | Some g \<Rightarrow> pg\<lparr>grid := Some (g\<lparr>gridTemplateColumns := frTemplate le colWidths,
                                       gridTemplateRows := frTemplate le rowHeights\<rparr>)\<rparr>)"

record grid_resize_state =
  g_isResizing :: bool
  g_type :: string
  g_index :: nat
  g_startPos :: real
  g_startSizes :: "real list"

text \<open>
  \<open>onGridResize\<close> with the pointer at \<open>pos\<close>; \<open>colWidths\<close> and \<open>rowHeights\<close> are what
  \<open>getGridStructure\<close> measures on the rendered page at that moment.
\<close>

definition onGridResize ::
  "layout_env \<Rightarrow> grid_resize_state \<Rightarrow> real \<times> real \<Rightarrow> real list \<Rightarrow> real list \<Rightarrow> page \<Rightarrow> page" where
  "onGridResize le gs pos colWidths rowHeights pg =
     (if \<not> g_isResizing gs then pg
      else (let delta = (if g_type gs = ''column'' then fst pos - g_startPos gs
                         else snd pos - g_startPos gs)
            in case gridNewSizes (g_startSizes gs) (g_index gs) delta of
                 None \<Rightarrow> pg
               | Some newSizes \<Rightarrow>
                   if g_type gs = ''column'' then applyGridTemplate le newSizes rowHeights pg
                   else applyGridTemplate le colWidths newSizes pg))"

section \<open>Panels (renderWebviews in src/renderer.js)\<close>

text \<open>
  A panel instance is a DOM element: an API chat panel or a webview. Its identity is
  the number it received when it was created. A wrapper is the
  \<open>.webview-wrapper\<close> of a session and a service; \<open>pw_content\<close> lists its API panel and
  webview children in document order and \<open>pw_textarea\<close> is the \<open>style.display\<close> of its
  response container, if it has one. \<open>webviewInstances\<close> is the cache: session id to
  service key to instance.
\<close>

datatype kind = ApiPanel | WebviewEl

record panel_instance =
  inst_id :: nat
  inst_kind :: kind
  inst_aiKey :: string

record pwrapper =
  pw_sessionId :: "string option"
  pw_aiKey :: string
  pw_display :: string
  pw_order :: nat
  pw_content :: "panel_instance list"
  pw_textarea :: "string option"

record mux =
  domWrappers :: "pwrapper list"
  webviewInstances :: "(string option \<times> (string \<times> panel_instance) list) list"
  nextInstance :: nat
  muxLogs :: "log_entry list"

text \<open>\<open>getSessionWebviews\<close> creates the empty entry of a session that has none.\<close>

definition getSessionWebviews :: "string option \<Rightarrow> mux \<Rightarrow> (string \<times> panel_instance) list \<times> mux" where
  "getSessionWebviews sessionId mx =
     (case map_of (webviewInstances mx) sessionId of
        None \<Rightarrow> ([], mx\<lparr>webviewInstances := AList.update sessionId [] (webviewInstances mx)\<rparr>)
      | Some sessionWebviews \<Rightarrow> (sessionWebviews, mx))"

text \<open>\<open>sessionWebviews[aiKey]\<close> and \<open>sessionWebviews[aiKey] = webview\<close> on the entry of a session.\<close>

definition cached :: "mux \<Rightarrow> string option \<Rightarrow> string \<Rightarrow> panel_instance option" where
  "cached mx sessionId aiKey =
     (case map_of (webviewInstances mx) sessionId of
        None \<Rightarrow> None
      | Some sessionWebviews \<Rightarrow> map_of sessionWebviews aiKey)"

definition setCached :: "string option \<Rightarrow> string \<Rightarrow> panel_instance \<Rightarrow> mux \<Rightarrow> mux" where
  "setCached sessionId aiKey inst mx =
     mx\<lparr>webviewInstances :=
          AList.update sessionId
            (AList.update aiKey inst
               (case map_of (webviewInstances mx) sessionId of None \<Rightarrow> [] | Some ws \<Rightarrow> ws))
            (webviewInstances mx)\<rparr>"

text \<open>\<open>createApiPanel\<close> and \<open>createWebview\<close> construct a new element.\<close>

definition createInstance :: "kind \<Rightarrow> string \<Rightarrow> mux \<Rightarrow> panel_instance \<times> mux" where
  "createInstance k aiKey mx =
     (\<lparr>inst_id = nextInstance mx, inst_kind = k, inst_aiKey = aiKey\<rparr>,
      mx\<lparr>nextInstance := nextInstance mx + 1\<rparr>)"

text \<open>\<open>document.querySelector\<close> for the wrapper of a session and a service.\<close>

definition isWrapperOf :: "string option \<Rightarrow> string \<Rightarrow> pwrapper \<Rightarrow> bool" where
  "isWrapperOf sessionId aiKey w = (pw_sessionId w = sessionId \<and> pw_aiKey w = aiKey)"

definition findWrapper :: "mux \<Rightarrow> string option \<Rightarrow> string \<Rightarrow> pwrapper option" where
  "findWrapper mx sessionId aiKey = find (isWrapperOf sessionId aiKey) (domWrappers mx)"

text \<open>The response container of an existing wrapper, by mode.\<close>

definition textareaFor :: "string option \<Rightarrow> string option \<Rightarrow> string option" where
  "textareaFor md ta =
     (if md = Some ''web'' then (case ta of None \<Rightarrow> Some [] | Some d \<Rightarrow> Some ''block'')
      else (case ta of None \<Rightarrow> None | Some d \<Rightarrow> Some ''none''))"

text \<open>
  The branch for a wrapper that does not exist yet: the cached instance is used if
  there is one, otherwise one is created for the mode and cached.
\<close>

definition createWrapper :: "string option \<Rightarrow> string option \<Rightarrow> nat \<Rightarrow> string \<Rightarrow> mux \<Rightarrow> mux" where
  "createWrapper sessionId md index aiKey mx =
     (case (case cached mx sessionId aiKey of
              Some webview \<Rightarrow> (webview, mx)
            | None \<Rightarrow>
                (case createInstance (if md = Some ''api'' then ApiPanel else WebviewEl) aiKey mx of
                   (webview, mx1) \<Rightarrow> (webview, setCached sessionId aiKey webview mx1))) of
        (webview, mx2) \<Rightarrow>
          mx2\<lparr>domWrappers := domWrappers mx2 @
                 [\<lparr>pw_sessionId = sessionId, pw_aiKey = aiKey, pw_display = [],
                   pw_order = index, pw_content = [webview],
                   pw_textarea = (if md = Some ''web'' then Some [] else None)\<rparr>]\<rparr>)"

text \<open>
  The branch for an existing wrapper \<open>w\<close>: it is shown, and its content is recreated
  when it does not match the mode.
\<close>

definition showWrapper ::
  "string option \<Rightarrow> string option \<Rightarrow> nat \<Rightarrow> string \<Rightarrow> pwrapper \<Rightarrow> mux \<Rightarrow> mux" where
  "showWrapper sessionId md index aiKey w mx =
     (let existingApiPanel = find (\<lambda>c. inst_kind c = ApiPanel) (pw_content w);
          existingWebview = find (\<lambda>c. inst_kind c = WebviewEl) (pw_content w);
          w1 = w\<lparr>pw_display := ''flex'', pw_order := index\<rparr>
      in if md = Some ''api'' \<and> existingApiPanel = None then
           (case createInstance ApiPanel aiKey mx of
              (apiPanel, mx1) \<Rightarrow>
                (setCached sessionId aiKey apiPanel mx1)
                  \<lparr>domWrappers :=
                     updateFirst (isWrapperOf sessionId aiKey)
                       (\<lambda>_. w1\<lparr>pw_content :=
                                  apiPanel # removeFirst (\<lambda>c. inst_kind c = WebviewEl) (pw_content w),
                                pw_textarea :=
                                  textareaFor md (case pw_textarea w of None \<Rightarrow> None
                                                  | Some d \<Rightarrow> Some ''none'')\<rparr>)
                       (domWrappers mx1)\<rparr>)
         else if md = Some ''web'' \<and> existingWebview = None then
           (case createInstance WebviewEl aiKey mx of
              (webview, mx1) \<Rightarrow>
                (setCached sessionId aiKey webview mx1)
                  \<lparr>domWrappers :=
                     updateFirst (isWrapperOf sessionId aiKey)
                       (\<lambda>_. w1\<lparr>pw_content :=
                                  webview # removeFirst (\<lambda>c. inst_kind c = ApiPanel) (pw_content w),
                                pw_textarea := textareaFor md (pw_textarea w)\<rparr>)
                       (domWrappers mx1)\<rparr>)
         else
           mx\<lparr>domWrappers :=
                updateFirst (isWrapperOf sessionId aiKey)
                  (\<lambda>_. w1\<lparr>pw_textarea := textareaFor md (pw_textarea w)\<rparr>)
                  (domWrappers mx)\<rparr>)"

text \<open>
  The body of the loop over the selected services, for the service \<open>aiKey\<close> at position
  \<open>index\<close>. It returns the next position: a service without configuration is skipped
  with a warning and does not count.
\<close>

definition renderPanel ::
  "(string \<Rightarrow> bool) \<Rightarrow> string option \<Rightarrow> string option \<Rightarrow> nat \<Rightarrow> string \<Rightarrow> mux \<Rightarrow> mux \<times> nat" where
  "renderPanel hasConfig sessionId md index aiKey mx =
     (if \<not> hasConfig aiKey
      then (mx\<lparr>muxLogs := muxLogs mx @ [LogWarn ''[OnePrompt] Config not found for AI''] \<rparr>, index)
      else (case findWrapper mx sessionId aiKey of
              None \<Rightarrow> (createWrapper sessionId md index aiKey mx, index + 1)
            | Some w \<Rightarrow> (showWrapper sessionId md index aiKey w mx, index + 1)))"

fun renderSelected ::
  "(string \<Rightarrow> bool) \<Rightarrow> string option \<Rightarrow> string option \<Rightarrow> nat \<Rightarrow> string list \<Rightarrow> mux \<Rightarrow> mux" where
  "renderSelected hasConfig sessionId md index [] mx = mx"
| "renderSelected hasConfig sessionId md index (aiKey # aiKeys) mx =
     (case renderPanel hasConfig sessionId md index aiKey mx of
        (mx1, index1) \<Rightarrow> renderSelected hasConfig sessionId md index1 aiKeys mx1)"

text \<open>Hiding the wrapper of every cached instance of every session.\<close>

definition hideAll :: "mux \<Rightarrow> mux" where
  "hideAll mx =
     mx\<lparr>domWrappers :=
          fold (\<lambda>(sessionId, aiKey).
                  updateFirst (isWrapperOf sessionId aiKey) (\<lambda>w. w\<lparr>pw_display := ''none''\<rparr>))
               (concat (map (\<lambda>(sessionId, ws). map (\<lambda>(aiKey, _). (sessionId, aiKey)) ws)
                            (webviewInstances mx)))
               (domWrappers mx)\<rparr>"

text \<open>
  \<open>renderWebviews\<close>, for the panels: with no service selected every panel is hidden;
  otherwise every panel is hidden and the selected services are rendered in order.
\<close>

definition renderWebviews ::
  "(string \<Rightarrow> bool) \<Rightarrow> string option \<Rightarrow> string option \<Rightarrow> string list \<Rightarrow> mux \<Rightarrow> mux" where
  "renderWebviews hasConfig sessionId md selected mx =
     (if length selected = 0 then hideAll mx
      else renderSelected hasConfig sessionId md 0 selected
             (snd (getSessionWebviews sessionId (hideAll mx))))"


text \<open>
  The wrapper and the cache agree on a session and a service: either there is neither
  wrapper nor cached instance, or the wrapper's only content is the cached instance,
  which was created earlier.
\<close>

definition panelInv :: "mux \<Rightarrow> string option \<Rightarrow> string \<Rightarrow> bool" where
  "panelInv mx sessionId aiKey =
     (case (findWrapper mx sessionId aiKey, cached mx sessionId aiKey) of
        (None, None) \<Rightarrow> True
      | (Some w, Some c) \<Rightarrow> pw_content w = [c] \<and> inst_id c < nextInstance mx
      | _ \<Rightarrow> False)"


section \<open>Concrete inputs\<close>

text \<open>
  Inputs at which the theorems below are evaluated: a host whose storage accepts every
  write and whose stored session data never parses, a host whose storage rejects every
  write with a quota error, an empty store, and sessions with given id, number and
  history. The hosts write numbers in decimal notation.
\<close>

fun digitsOf :: "nat \<Rightarrow> string" where
  "digitsOf n = (if n < 10 then [''0123456789'' ! n]
                 else digitsOf (n div 10) @ [''0123456789'' ! (n mod 10)])"

declare digitsOf.simps [simp del]

definition toString :: "jsnumber \<Rightarrow> string" where
  "toString x =
     (case x of
        NaN \<Rightarrow> ''NaN''
      | PosInfinity \<Rightarrow> ''Infinity''
      | NegInfinity \<Rightarrow> ''-Infinity''
      | Finite i \<Rightarrow> if i < 0 then CHR ''-'' # digitsOf (nat (- i)) else digitsOf (nat i))"

definition env0 :: env where
  "env0 = \<lparr> now = 1000,
            stringify = (\<lambda>ss. concat (map id' ss)),
            parse = (\<lambda>s. Inl \<lparr>err_name = ''SyntaxError'', err_message = s\<rparr>),
            parseInt = (\<lambda>s. Finite 0),
            numberToString = toString,
            setItemThrows = (\<lambda>m k v. None),
            onAfterSave = None \<rparr>"

definition envQuota :: env where
  "envQuota = env0\<lparr> setItemThrows :=
                      (\<lambda>m k v. Some \<lparr>err_name = ''QuotaExceededError'', err_message = []\<rparr>) \<rparr>"

definition store0 :: store where
  "store0 = \<lparr> sessions = [], currentSessionId = None, sessionCounter = Finite 0,
              localStorage = Map.empty, writes = [], logs = [] \<rparr>"

definition exampleSession :: "string \<Rightarrow> int \<Rightarrow> (string \<times> message list) list \<Rightarrow> session" where
  "exampleSession i n hs =
     \<lparr> id' = i, name = None, sessionNumber = Some n, selectedAIs = [], mode = Some ''api'',
       chatUrls = Some [], apiChatHistory = Some hs, promptDraft = [], createdAt = 0 \<rparr>"

definition msg :: "string \<Rightarrow> message" where
  "msg c = \<lparr> role = ''user'', content = c \<rparr>"





definition storeAB :: store where
  "storeAB = store0\<lparr>sessions := [exampleSession ''a'' 1 [], exampleSession ''b'' 2 [(''x'', [msg ''old''])]],
                    currentSessionId := Some ''a''\<rparr>"

definition storeABC :: store where
  "storeABC = store0\<lparr>sessions := [exampleSession ''a'' 1 [], exampleSession ''b'' 2 [],
                                      exampleSession ''c'' 3 []],
                     currentSessionId := Some ''a''\<rparr>"





text \<open>A store whose session \<open>a\<close> holds twelve messages for the service \<open>x\<close>.\<close>

definition storeTwelve :: store where
  "storeTwelve = store0\<lparr>sessions :=
     [exampleSession ''a'' 1
        [(''x'', map msg [''m1'', ''m2'', ''m3'', ''m4'', ''m5'', ''m6'', ''m7'', ''m8'', ''m9'',
                          ''m10'', ''m11'', ''m12''])]],
     currentSessionId := Some ''a''\<rparr>"

text \<open>
  The panels of session \<open>a\<close> for two services, the request for the first of them, and
  a store whose other session \<open>b\<close> holds seven messages.
\<close>

definition webviewsXY :: "string \<rightharpoonup> panel" where
  "webviewsXY = [''x'' \<mapsto> \<lparr>p_aiKey = ''x'', p_sessionId = Some ''a''\<rparr>,
                 ''y'' \<mapsto> \<lparr>p_aiKey = ''y'', p_sessionId = Some ''a''\<rparr>]"

definition requestX :: request where
  "requestX = \<lparr>req_aiKey = ''x'', req_prompt = ''hi'',
                req_panel = \<lparr>p_aiKey = ''x'', p_sessionId = Some ''a''\<rparr>, req_target = Some ''a''\<rparr>"

definition storeSeven :: store where
  "storeSeven = store0\<lparr>sessions :=
     [exampleSession ''a'' 1 [],
      exampleSession ''b'' 2
        [(''x'', map msg [''o1'', ''o2'', ''o3'', ''o4'', ''o5'', ''o6'', ''o7''])]],
     currentSessionId := Some ''a''\<rparr>"

definition lenv0 :: layout_env where
  "lenv0 = \<lparr> parseRatios = (\<lambda>s. Some [''x'' \<mapsto> 2]),
             parseGridData = (\<lambda>s. Some (Some s, Some s)),
             toFixed3 = (\<lambda>r. ''1.000'') \<rparr>"

definition exampleWrapper :: "string \<Rightarrow> real option \<Rightarrow> wrapper" where
  "exampleWrapper k f =
     \<lparr> w_aiKey = k, w_display = ''flex'', w_order = 0, w_flex = f, w_minWidth = ''150px'',
       w_minHeight = [], w_width = 400, w_height = 300 \<rparr>"

definition page0 :: page where
  "page0 = \<lparr> grid = Some \<lparr>classes = [''webview-grid'', ''layout-horizontal''],
                             gridTemplateColumns = [], gridTemplateRows = []\<rparr>,
             wrappers = [exampleWrapper ''x'' (Some 2), exampleWrapper ''y'' (Some 1)],
             sizeStorage = [''oneprompt-wrapper-sizes-vertical'' \<mapsto> ''{x:2,y:1}'',
                            ''oneprompt-wrapper-sizes-horizontal'' \<mapsto> ''{x:3,y:1}''],
             pageLogs = [] \<rparr>"


section \<open>Properties of the session store\<close>

subsection \<open>Session numbers\<close>

lemma removeSession_example:
  "removeSession ''b'' storeABC =
     (True, storeABC\<lparr>sessions := [exampleSession ''a'' 1 [], exampleSession ''c'' 3 []]\<rparr>)"
  by (simp add: removeSession_def storeABC_def store0_def exampleSession_def)

lemma gapFindingNumber_example:
  "gapFindingNumber (sessions (snd (removeSession ''b'' storeABC))) = 2"
  by (simp add: removeSession_example gapFindingNumber_def usedNumbers_def exampleSession_def
      gapFrom.simps)

text \<open>
  C1. The claim: \<open>createSession\<close> gives the new session the smallest positive number
  not used by a live session, so that a session created after one was closed takes the
  closed session's number. With sessions numbered 1, 2 and 3, closing session 2 leaves
  the numbers 1 and 3, and \<open>createSession\<close> of sessions.js then returns number 4, one
  more than the largest, for every name, selection, mode and host; the smallest free
  number is 2, which is what the gap finding of settings.js and renderer.js computes
  on the same sessions (\<open>gapFindingNumber_example\<close>).
\<close>

theorem createSession_skips_gap:
  "map sessionNumber (sessions (snd (removeSession ''b'' storeABC))) = [Some 1, Some 3] \<and>
   sessionNumber (fst (createSession e nm sel m (snd (removeSession ''b'' storeABC)))) = Some 4"
  by (simp add: removeSession_example createSession_def Let_def nextNumber_def existingNumbers_def
      exampleSession_def maxOf_def)

subsection \<open>createSession and the store\<close>

lemma bitLength_bound: "n < 2 ^ k \<Longrightarrow> bitLength n \<le> k"
proof (induction k arbitrary: n)
  case 0
  then show ?case by (simp add: bitLength.simps)
next
  case (Suc k)
  show ?case
  proof (cases "n = 0")
    case True
    then show ?thesis by (simp add: bitLength.simps)
  next
    case False
    from Suc.prems have "n div 2 < 2 ^ k" by simp
    from Suc.IH [OF this] False show ?thesis
      by (subst bitLength.simps) simp
  qed
qed

lemma bitLength_least: "2 ^ k \<le> n \<Longrightarrow> Suc k \<le> bitLength n"
proof (induction k arbitrary: n)
  case 0
  then show ?case by (subst bitLength.simps) simp
next
  case (Suc k)
  then have "2 ^ k \<le> n div 2" by simp
  moreover have "0 < n"
    using Suc.prems by (cases "n = 0") simp_all
  ultimately show ?case
    using Suc.IH [of "n div 2"] by (subst bitLength.simps) simp
qed

lemma roundToDouble_exact:
  assumes "nat \<bar>m\<bar> mod 2 ^ (bitLength (nat \<bar>m\<bar>) - 53) = 0"
  shows "roundToDouble m = m"
proof -
  let ?a = "nat \<bar>m\<bar>"
  let ?k = "bitLength ?a - 53"
  have "?a div 2 ^ ?k * 2 ^ ?k = ?a"
    using assms by (simp add: mod_eq_0_iff_dvd)
  then have "int (?a div 2 ^ ?k * 2 ^ ?k) = \<bar>m\<bar>" by simp
  then show ?thesis
    using assms unfolding roundToDouble_def Let_def by (simp add: abs_if split: if_splits)
qed

lemma roundToDouble_safe:
  assumes "\<bar>m\<bar> \<le> 2 ^ 53"
  shows "roundToDouble m = m"
proof (rule roundToDouble_exact)
  show "nat \<bar>m\<bar> mod 2 ^ (bitLength (nat \<bar>m\<bar>) - 53) = 0"
  proof (cases "nat \<bar>m\<bar> < 2 ^ 53")
    case True
    from bitLength_bound [OF this] show ?thesis by simp
  next
    case False
    with assms have "nat \<bar>m\<bar> < 2 ^ 54" and "2 ^ 53 \<le> nat \<bar>m\<bar>" by simp_all
    from bitLength_bound [OF this(1)] bitLength_least [OF this(2)]
    have "bitLength (nat \<bar>m\<bar>) - 53 = 1" by simp
    moreover from assms False have "nat \<bar>m\<bar> = 2 ^ 53" by simp
    ultimately show ?thesis by simp
  qed
qed

lemma increment_safe: "\<bar>n\<bar> < 2 ^ 53 \<Longrightarrow> increment (Finite n) = Finite (n + 1)"
  by (simp add: increment_def roundToDouble_safe)

lemma increment_NaN [simp]: "increment NaN = NaN"
  by (simp add: increment_def)

lemma increment_limit: "increment (Finite (2 ^ 53)) = Finite (2 ^ 53)"
proof -
  have "bitLength (2 ^ 53 + 1) \<le> 54"
    by (rule bitLength_bound) simp
  moreover have "Suc 53 \<le> bitLength (2 ^ 53 + 1)"
    by (rule bitLength_least) simp
  ultimately have "bitLength (2 ^ 53 + 1) = 54" by simp
  then show ?thesis
    by (simp add: increment_def roundToDouble_def Let_def)
qed

text \<open>
  C9, as stated: \<open>createSession\<close> leaves the session list, the current-session pointer
  and the session counter unchanged. It fails on the counter: on the empty store the
  counter after the call differs from the counter before it.
\<close>

theorem createSession_changes_counter:
  "sessionCounter (snd (createSession env0 None None None store0)) \<noteq> sessionCounter store0"
  by (simp add: createSession_def Let_def store0_def increment_safe)

text \<open>
  C9, amended: for every combination of arguments \<open>createSession\<close> leaves the session
  list, the current-session pointer and \<open>localStorage\<close> (hence the persisted copy of the
  counter) unchanged, and applies \<open>++\<close> to the store's \<open>sessionCounter\<close>. A counter that
  is an integer of magnitude below \<open>2 ^ 53\<close> becomes that integer plus one; a counter that
  is \<open>NaN\<close> (as \<open>parseInt\<close> leaves it when the stored counter is not a number) stays
  \<open>NaN\<close>, and the counter \<open>2 ^ 53\<close> stays \<open>2 ^ 53\<close>.
\<close>

theorem createSession_frame:
  "sessions (snd (createSession e nm sel m st)) = sessions st \<and>
   currentSessionId (snd (createSession e nm sel m st)) = currentSessionId st \<and>
   localStorage (snd (createSession e nm sel m st)) = localStorage st \<and>
   sessionCounter (snd (createSession e nm sel m st)) = increment (sessionCounter st) \<and>
   (sessionCounter st = Finite n \<and> \<bar>n\<bar> < 2 ^ 53 \<longrightarrow>
      sessionCounter (snd (createSession e nm sel m st)) = Finite (n + 1)) \<and>
   (sessionCounter st = NaN \<longrightarrow> sessionCounter (snd (createSession e nm sel m st)) = NaN) \<and>
   (sessionCounter st = Finite (2 ^ 53) \<longrightarrow>
      sessionCounter (snd (createSession e nm sel m st)) = Finite (2 ^ 53))"
proof -
  have c: "sessionCounter (snd (createSession e nm sel m st)) = increment (sessionCounter st)"
    by (simp add: createSession_def Let_def)
  have "sessionCounter st = Finite n \<and> \<bar>n\<bar> < 2 ^ 53 \<longrightarrow> increment (sessionCounter st) = Finite (n + 1)"
    using increment_safe [of n] by auto
  moreover have "sessionCounter st = Finite (2 ^ 53) \<longrightarrow> increment (sessionCounter st) = Finite (2 ^ 53)"
    using increment_limit by auto
  moreover have "sessionCounter st = NaN \<longrightarrow> increment (sessionCounter st) = NaN"
    by auto
  ultimately show ?thesis
    unfolding c by (simp add: createSession_def Let_def)
qed

theorem createSession_frame_witness:
  "sessionCounter (snd (createSession env0 None None None store0)) = Finite 1 \<and>
   sessions (snd (createSession env0 None None None store0)) = [] \<and>
   sessionCounter (snd (createSession env0 None None None (store0\<lparr>sessionCounter := NaN\<rparr>))) = NaN \<and>
   sessionCounter (snd (createSession env0 None None None (store0\<lparr>sessionCounter := Finite (2 ^ 53)\<rparr>)))
     = Finite (2 ^ 53)"
proof -
  have "sessionCounter (snd (createSession env0 None None None store0)) = Finite 1 \<and>
        sessions (snd (createSession env0 None None None store0)) = []"
    using createSession_frame [of env0 None None None store0 0]
    by (simp add: store0_def increment_safe)
  moreover have "sessionCounter (snd (createSession env0 None None None (store0\<lparr>sessionCounter := NaN\<rparr>))) = NaN"
    using createSession_frame [of env0 None None None "store0\<lparr>sessionCounter := NaN\<rparr>" 0]
    by simp
  moreover have "sessionCounter (snd (createSession env0 None None None (store0\<lparr>sessionCounter := Finite (2 ^ 53)\<rparr>)))
     = Finite (2 ^ 53)"
    using createSession_frame [of env0 None None None "store0\<lparr>sessionCounter := Finite (2 ^ 53)\<rparr>" 0]
          increment_limit
    by simp
  ultimately show ?thesis by simp
qed

lemma createSession_store:
  "snd (createSession e nm sel m st) = st\<lparr>sessionCounter := increment (sessionCounter st)\<rparr>"
  by (simp add: createSession_def Let_def)

subsection \<open>Saving\<close>

lemma setItem_frame:
  "setItem e k v st = (r, st1) \<Longrightarrow>
     sessions st1 = sessions st \<and> currentSessionId st1 = currentSessionId st \<and>
     sessionCounter st1 = sessionCounter st \<and> logs st1 = logs st"
  by (auto simp: setItem_def Let_def split: option.splits)

lemma runAfterSaveHook_frame:
  "runAfterSaveHook e st = (r, st1) \<Longrightarrow>
     r = None \<and> sessions st1 = sessions st \<and> currentSessionId st1 = currentSessionId st \<and>
     sessionCounter st1 = sessionCounter st \<and> localStorage st1 = localStorage st \<and>
     writes st1 = writes st"
  by (auto simp: runAfterSaveHook_def tryCatch_def logger_def split: option.splits)

lemma saveBody_frame:
  "saveBody e None st = (r, st1) \<Longrightarrow>
     sessions st1 = sessions st \<and> currentSessionId st1 = currentSessionId st \<and>
     sessionCounter st1 = sessionCounter st"
  unfolding saveBody_def seq_def ret_def
  by (auto split: prod.splits option.splits dest!: setItem_frame runAfterSaveHook_frame)

lemma retrySave_result:
  "retrySave e st =
     (None, st\<lparr>writes := writes st @ [(SESSIONS, stringify e (sessions st))],
               localStorage :=
                 (case setItemThrows e (localStorage st) SESSIONS (stringify e (sessions st)) of
                    None \<Rightarrow> (localStorage st)(SESSIONS \<mapsto> stringify e (sessions st))
                  | Some err \<Rightarrow> localStorage st),
               logs := logs st @
                 [case setItemThrows e (localStorage st) SESSIONS (stringify e (sessions st)) of
                    None \<Rightarrow> LogInfo ''Sessions saved after trimming.''
                  | Some err \<Rightarrow> LogError ''Still failed after trimming:'']\<rparr>)"
  by (simp add: retrySave_def tryCatch_def seq_def setItem_def logger_def Let_def
      split: option.splits)

lemma save_on_quota:
  assumes "saveBody e cap st = (Some err, st1)" and "isQuotaError err"
  shows "saveSessionsToStorage e cap st =
           (if list_ex (sessionFreed maxHistoryPerAI) (sessions st1)
            then retrySave e
                   (st1\<lparr>logs := logs st1 @ [LogError ''Failed to save sessions to storage:'',
                           LogWarn ''Storage quota exceeded. Attempting to trim history...''],
                        sessions := map (trimSession maxHistoryPerAI) (sessions st1)\<rparr>)
            else (None,
                   st1\<lparr>logs := logs st1 @ [LogError ''Failed to save sessions to storage:'',
                           LogWarn ''Storage quota exceeded. Attempting to trim history...''],
                        sessions := map (trimSession maxHistoryPerAI) (sessions st1)\<rparr>))"
  using assms
  by (simp add: saveSessionsToStorage_def tryCatch_def seq_def logger_def quotaRecovery_def
      trimAllApiHistory_def)

lemma save_on_other:
  assumes "saveBody e cap st = (Some err, st1)" and "\<not> isQuotaError err"
  shows "saveSessionsToStorage e cap st =
           (None, st1\<lparr>logs := logs st1 @ [LogError ''Failed to save sessions to storage:'']\<rparr>)"
  using assms
  by (simp add: saveSessionsToStorage_def tryCatch_def seq_def logger_def ret_def)

lemma save_on_success:
  assumes "saveBody e cap st = (None, st1)"
  shows "saveSessionsToStorage e cap st = (None, st1)"
  using assms by (simp add: saveSessionsToStorage_def tryCatch_def)

lemma saveSessionsToStorage_no_throw: "fst (saveSessionsToStorage e cap st) = None"
proof (cases "saveBody e cap st")
  case (Pair r st1)
  show ?thesis
  proof (cases r)
    case None
    with Pair show ?thesis by (simp add: save_on_success)
  next
    case (Some err)
    with Pair show ?thesis
      by (cases "isQuotaError err") (simp_all add: save_on_quota save_on_other retrySave_result)
  qed
qed

text \<open>
  Without a URL capture function, a save leaves the pointer and the counter alone, and
  the session list is either untouched or has had its histories trimmed.
\<close>

lemma save_effect:
  "currentSessionId (snd (saveSessionsToStorage e None st)) = currentSessionId st \<and>
   sessionCounter (snd (saveSessionsToStorage e None st)) = sessionCounter st \<and>
   (sessions (snd (saveSessionsToStorage e None st)) = sessions st \<or>
    sessions (snd (saveSessionsToStorage e None st)) =
      map (trimSession maxHistoryPerAI) (sessions st))"
proof (cases "saveBody e None st")
  case (Pair r st1)
  note fr = saveBody_frame [OF Pair]
  show ?thesis
  proof (cases r)
    case None
    with Pair fr show ?thesis by (simp add: save_on_success)
  next
    case (Some err)
    with Pair fr show ?thesis
      by (cases "isQuotaError err") (simp_all add: save_on_quota save_on_other retrySave_result)
  qed
qed

lemma trimSession_id [simp]: "id' (trimSession n s) = id' s"
  by (simp add: trimSession_def split: option.splits)

lemma save_ids:
  "map id' (sessions (snd (saveSessionsToStorage e None st))) = map id' (sessions st)"
  using save_effect [of e st] by (auto simp: comp_def)

lemma save_length:
  "length (sessions (snd (saveSessionsToStorage e None st))) = length (sessions st)"
  using save_ids [of e st] by (metis length_map)

subsection \<open>The new-tab action\<close>

lemma createNew_at_limit:
  "20 \<le> length (sessions st) \<Longrightarrow> createNewSessionAndSwitch e st = (None, st)"
  by (simp add: createNewSessionAndSwitch_def)

lemma createNew_length:
  "length (sessions st) < 20 \<Longrightarrow>
   length (sessions (snd (createNewSessionAndSwitch e st))) = length (sessions st) + 1"
proof -
  assume lt: "length (sessions st) < 20"
  obtain st1 where s1: "saveSessionsToStorage e None st = (None, st1)"
    using saveSessionsToStorage_no_throw [of e None st] by (cases "saveSessionsToStorage e None st") auto
  have l1: "length (sessions st1) = length (sessions st)"
    using save_length [of e st] s1 by simp
  obtain d st2 where c: "createSession e None (Some []) None st1 = (d, st2)"
    by (cases "createSession e None (Some []) None st1") auto
  have l2: "sessions st2 = sessions st1"
    using createSession_store [of e None "Some []" None st1] c by simp
  have "length (sessions (snd (saveSessionsToStorage e None
          (setCurrentSessionId (Some (id' d)) (addSession d st2))))) = length (sessions st) + 1"
    by (simp add: save_length setCurrentSessionId_def addSession_def l1 l2)
  then show ?thesis
    using lt s1 c by (simp add: createNewSessionAndSwitch_def seq_def)
qed

lemma createNew_inv:
  "length (sessions st) \<le> 20 \<Longrightarrow> length (sessions (snd (createNewSessionAndSwitch e st))) \<le> 20"
  using createNew_at_limit [of st e] createNew_length [of st e]
  by (cases "length (sessions st) < 20") auto

text \<open>
  C10. When the session list already holds 20 or more sessions the new-tab action
  returns the store exactly as it found it (session list, current-session pointer,
  session counter and storage alike), and starting from at most 20 sessions no number
  of new-tab actions takes the list beyond 20.
\<close>

theorem createNewSessionAndSwitch_limit:
  "(20 \<le> length (sessions st) \<longrightarrow> createNewSessionAndSwitch e st = (None, st)) \<and>
   (length (sessions st) \<le> 20 \<longrightarrow>
      (\<forall>n. length (sessions (((\<lambda>s. snd (createNewSessionAndSwitch e s)) ^^ n) st)) \<le> 20))"
proof (intro conjI impI allI)
  assume "20 \<le> length (sessions st)"
  then show "createNewSessionAndSwitch e st = (None, st)" by (rule createNew_at_limit)
next
  fix n
  assume "length (sessions st) \<le> 20"
  then show "length (sessions (((\<lambda>s. snd (createNewSessionAndSwitch e s)) ^^ n) st)) \<le> 20"
    by (induction n) (auto intro: createNew_inv)
qed

theorem createNewSessionAndSwitch_limit_witness:
  "createNewSessionAndSwitch env0 (store0\<lparr>sessions := replicate 20 (exampleSession ''a'' 1 [])\<rparr>)
     = (None, store0\<lparr>sessions := replicate 20 (exampleSession ''a'' 1 [])\<rparr>) \<and>
   length (sessions (((\<lambda>s. snd (createNewSessionAndSwitch env0 s)) ^^ 25) store0)) \<le> 20"
  using createNewSessionAndSwitch_limit [of "store0\<lparr>sessions := replicate 20 (exampleSession ''a'' 1 [])\<rparr>" env0]
        createNewSessionAndSwitch_limit [of store0 env0]
  by (simp add: store0_def)


subsection \<open>Quota recovery\<close>

lemma saveBody_envQuota:
  "saveBody envQuota None st =
     (Some \<lparr>err_name = ''QuotaExceededError'', err_message = []\<rparr>,
      st\<lparr>writes := writes st @ [(SESSIONS, stringify envQuota (sessions st))]\<rparr>)"
  by (simp add: saveBody_def seq_def ret_def setItem_def envQuota_def Let_def)






subsection \<open>Loading\<close>



































section \<open>Properties of the chat history\<close>

lemma sliceLast_length: "length (sliceLast n xs) = min n (length xs)"
  by (auto simp: sliceLast_def)

lemma sliceLast_short: "length xs \<le> n \<Longrightarrow> sliceLast n xs = xs"
  by (simp add: sliceLast_def)

lemma window_is_sliceLast:
  "(if length h > n then sliceLast n h else h) = sliceLast n h"
  by (simp add: sliceLast_def)

lemma trimHistory_sliceLast: "trimHistory n h = sliceLast n h"
  by (simp add: trimHistory_def sliceLast_def)

lemma drop_index_cong: "i = j \<Longrightarrow> drop i xs = drop j xs"
  by simp

lemma sliceLast_sliceLast: "sliceLast a (sliceLast b xs) = sliceLast (min a b) xs"
  by (auto simp: sliceLast_def min_def intro!: drop_index_cong)

lemma sliceLast_append_gen:
  "sliceLast n (sliceLast a xs @ ys) = sliceLast (min n (a + length ys)) (xs @ ys)"
  by (auto simp: sliceLast_def min_def intro!: drop_index_cong)

lemma find_updateFirst_same:
  "(\<And>x. P (f x) = P x) \<Longrightarrow> find P (updateFirst P f xs) = map_option f (find P xs)"
  by (induction xs) auto

lemma find_updateFirst_other:
  "(\<And>x. Q (f x) = Q x) \<Longrightarrow> (\<And>x. P x \<Longrightarrow> \<not> Q x) \<Longrightarrow> find Q (updateFirst P f xs) = find Q xs"
  by (induction xs) auto

lemma updateFirst_ids:
  "(\<And>x. g (f x) = g x) \<Longrightarrow> map g (updateFirst P f xs) = map g xs"
  by (induction xs) auto

lemma pushMessage_id [simp]: "id' (snd (pushMessage k m s)) = id' s"
  by (simp add: pushMessage_def Let_def split: option.splits)

lemma pushMessage_ok: "k \<notin> set objectPrototypeKeys \<Longrightarrow> fst (pushMessage k m s) = None"
  by (simp add: pushMessage_def Let_def split: option.splits)

lemma pushMessage_error: "fst (pushMessage k m s) = None \<or> fst (pushMessage k m s) = Some typeError"
  by (simp add: pushMessage_def Let_def split: option.splits)

lemma historyIn_pushMessage:
  "historyIn (snd (pushMessage k m s)) k' =
     (if fst (pushMessage k m s) = None \<and> k' = k
      then sliceLast API_HISTORY_LIMIT (historyIn s k @ [m]) else historyIn s k')"
  by (auto simp: historyIn_def pushMessage_def Let_def AList.update_conv' window_is_sliceLast
      sliceLast_def API_HISTORY_LIMIT_def split: option.splits)

lemma storedHistory_alt:
  "storedHistory st t k =
     (case find (\<lambda>s. Some (id' s) = t) (sessions st) of None \<Rightarrow> [] | Some s \<Rightarrow> historyIn s k)"
  by (simp add: storedHistory_def historyIn_def split: option.splits)

lemma find_None_exists: "(find (\<lambda>s. Some (id' s) = t) (sessions st) = None) = (\<not> sessionExists st t)"
  by (auto simp: sessionExists_def find_None_iff list_ex_iff)

lemma sessionExists_ids:
  "map id' (sessions a) = map id' (sessions b) \<Longrightarrow> sessionExists a t = sessionExists b t"
proof -
  assume "map id' (sessions a) = map id' (sessions b)"
  then have "map Some (map id' (sessions a)) = map Some (map id' (sessions b))" by simp
  then have "set (map (\<lambda>s. Some (id' s)) (sessions a)) = set (map (\<lambda>s. Some (id' s)) (sessions b))"
    by (simp add: comp_def)
  moreover have "sessionExists st t = (t \<in> set (map (\<lambda>s. Some (id' s)) (sessions st)))"
    for st :: store
    by (auto simp: sessionExists_def list_ex_iff)
  ultimately show ?thesis by simp
qed

lemma appendToHistory_ids:
  "map id' (sessions (snd (appendToHistory k m t0 st))) = map id' (sessions st)"
  by (simp add: appendToHistory_def updateFirst_ids split: option.splits)

lemma appendToHistory_pointer:
  "currentSessionId (snd (appendToHistory k m t0 st)) = currentSessionId st"
  by (simp add: appendToHistory_def split: option.splits)

lemma appendToHistory_ok:
  "k \<notin> set objectPrototypeKeys \<Longrightarrow> fst (appendToHistory k m t0 st) = None"
  by (simp add: appendToHistory_def pushMessage_ok split: option.splits)

lemma appendToHistory_history:
  "storedHistory (snd (appendToHistory k m t0 st)) t k' =
     (if fst (appendToHistory k m t0 st) = None \<and> t = t0 \<and> k' = k \<and> sessionExists st t0
      then sliceLast API_HISTORY_LIMIT (storedHistory st t k @ [m]) else storedHistory st t k')"
proof (cases "find (\<lambda>s. Some (id' s) = t0) (sessions st)")
  case None
  then have "\<not> sessionExists st t0" by (simp add: find_None_exists)
  with None show ?thesis by (simp add: appendToHistory_def)
next
  case (Some s)
  let ?mid = "st\<lparr>sessions := updateFirst (\<lambda>s. Some (id' s) = t0)
                               (\<lambda>s. snd (pushMessage k m s)) (sessions st)\<rparr>"
  have r: "appendToHistory k m t0 st = (fst (pushMessage k m s), ?mid)"
    using Some by (simp add: appendToHistory_def)
  have ex: "sessionExists st t0"
    using Some find_None_exists [of t0 st] by auto
  show ?thesis
  proof (cases "t = t0")
    case True
    have "find (\<lambda>s. Some (id' s) = t0) (sessions ?mid) = Some (snd (pushMessage k m s))"
      using Some by (simp add: find_updateFirst_same)
    then have "storedHistory ?mid t k' = historyIn (snd (pushMessage k m s)) k'"
      using True by (simp add: storedHistory_alt)
    moreover have "storedHistory st t k'' = historyIn s k''" for k''
      using True Some by (simp add: storedHistory_alt)
    ultimately show ?thesis
      unfolding r using True ex by (simp add: historyIn_pushMessage)
  next
    case False
    have "find (\<lambda>s. Some (id' s) = t) (sessions ?mid) = find (\<lambda>s. Some (id' s) = t) (sessions st)"
      by (simp, rule find_updateFirst_other) (use False in auto)
    then have "storedHistory ?mid t k' = storedHistory st t k'"
      by (simp add: storedHistory_alt)
    then show ?thesis
      unfolding r using False by simp
  qed
qed

subsection \<open>What a save does to the histories\<close>

lemma saveBody_error_from_setItem:
  "saveBody e None st = (Some err, st1) \<Longrightarrow> \<exists>m k v. setItemThrows e m k v = Some err"
  unfolding saveBody_def seq_def ret_def
  by (auto simp: setItem_def Let_def split: prod.splits option.splits dest!: runAfterSaveHook_frame)

lemma quotaHit_never: "neverQuota e \<Longrightarrow> \<not> quotaHit e st"
proof
  assume n: "neverQuota e" and q: "quotaHit e st"
  then obtain err st1 where b: "saveBody e None st = (Some err, st1)" and "isQuotaError err"
    by (cases "saveBody e None st") (auto simp: quotaHit_def split: option.splits)
  with saveBody_error_from_setItem [OF b] n show False
    by (auto simp: neverQuota_def)
qed

lemma save_sessions:
  "sessions (snd (saveSessionsToStorage e None st)) =
     (if quotaHit e st then map (trimSession maxHistoryPerAI) (sessions st) else sessions st)"
proof (cases "saveBody e None st")
  case (Pair r st1)
  note fr = saveBody_frame [OF Pair]
  show ?thesis
  proof (cases r)
    case None
    with Pair fr show ?thesis by (simp add: save_on_success quotaHit_def)
  next
    case (Some err)
    with Pair fr show ?thesis
      by (cases "isQuotaError err")
         (simp_all add: save_on_quota save_on_other retrySave_result quotaHit_def)
  qed
qed

lemma historyIn_trimSession:
  "historyIn (trimSession n s) k = trimHistory n (historyIn s k)"
proof (cases "apiChatHistory s")
  case None
  then show ?thesis by (simp add: historyIn_def trimSession_def trimHistory_def sliceLast_def)
next
  case (Some hs)
  have "map_of (map (\<lambda>(aiKey, h). (aiKey, trimHistory n h)) hs) k
          = map_option (trimHistory n) (map_of hs k)"
    by (induction hs) auto
  with Some show ?thesis
    by (auto simp: historyIn_def trimSession_def trimHistory_def sliceLast_def split: option.splits)
qed

lemma find_map_trimSession:
  "find (\<lambda>s. Some (id' s) = t) (map (trimSession n) xs)
     = map_option (trimSession n) (find (\<lambda>s. Some (id' s) = t) xs)"
  by (induction xs) auto

lemma storedHistory_trimmed:
  "sessions b = map (trimSession n) (sessions a) \<Longrightarrow>
   storedHistory b t k = trimHistory n (storedHistory a t k)"
  by (auto simp: storedHistory_alt find_map_trimSession historyIn_trimSession trimHistory_def
      sliceLast_def split: option.splits)

lemma storedHistory_same:
  "sessions b = sessions a \<Longrightarrow> storedHistory b t k = storedHistory a t k"
  by (simp add: storedHistory_def)

lemma save_history:
  "storedHistory (snd (saveSessionsToStorage e None st)) t k =
     (if quotaHit e st then sliceLast 6 (storedHistory st t k) else storedHistory st t k)"
proof (cases "quotaHit e st")
  case True
  then have "sessions (snd (saveSessionsToStorage e None st))
               = map (trimSession maxHistoryPerAI) (sessions st)"
    by (simp add: save_sessions)
  from storedHistory_trimmed [OF this] True show ?thesis
    by (simp add: trimHistory_sliceLast maxHistoryPerAI_def)
next
  case False
  then have "sessions (snd (saveSessionsToStorage e None st)) = sessions st"
    by (simp add: save_sessions)
  from storedHistory_same [OF this] False show ?thesis by simp
qed

lemma save_exists:
  "sessionExists (snd (saveSessionsToStorage e None st)) t = sessionExists st t"
  by (rule sessionExists_ids) (rule save_ids)

lemma save_pointer:
  "currentSessionId (snd (saveSessionsToStorage e None st)) = currentSessionId st"
  using save_effect [of e st] by simp

lemma save_kept:
  "kept (\<not> neverQuota e) (storedHistory st t k)
        (storedHistory (snd (saveSessionsToStorage e None st)) t k)"
  using quotaHit_never [of e st] by (auto simp: kept_def save_history)

subsection \<open>The two relations\<close>

lemma kept_refl [simp]: "kept q h h"
  by (simp add: kept_def)

lemma kept_trans: "kept q a b \<Longrightarrow> kept q b c \<Longrightarrow> kept q a c"
  by (auto simp: kept_def sliceLast_sliceLast)

lemma kept_exact: "kept False a b \<Longrightarrow> b = a"
  by (simp add: kept_def)

lemma windowOf_cases:
  "windowOf q a b \<Longrightarrow> \<exists>n. 6 \<le> n \<and> n \<le> 12 \<and> b = sliceLast n a \<and> (\<not> q \<longrightarrow> n = 12)"
proof -
  assume "windowOf q a b"
  then consider "b = sliceLast 12 a" | n where "q" "6 \<le> n" "n \<le> 12" "b = sliceLast n a"
    by (auto simp: windowOf_def)
  then show ?thesis
  proof cases
    case 1
    then have "6 \<le> (12::nat) \<and> (12::nat) \<le> 12 \<and> b = sliceLast 12 a \<and> (\<not> q \<longrightarrow> (12::nat) = 12)"
      by simp
    then show ?thesis by blast
  next
    case 2
    then show ?thesis by blast
  qed
qed

lemma windowOf_kept: "windowOf q a b \<Longrightarrow> kept q b c \<Longrightarrow> windowOf q a c"
proof -
  assume w: "windowOf q a b" and k: "kept q b c"
  show ?thesis
  proof (cases "c = b")
    case True
    with w show ?thesis by simp
  next
    case False
    with k have q: q and c: "c = sliceLast 6 b" by (auto simp: kept_def)
    from windowOf_cases [OF w] obtain n where "6 \<le> n" "b = sliceLast n a" by blast
    then have "c = sliceLast 6 a" using c by (simp add: sliceLast_sliceLast min_def)
    with q show ?thesis by (auto simp: windowOf_def)
  qed
qed

lemma kept_windowOf: "kept q a b \<Longrightarrow> windowOf q (b @ ms) c \<Longrightarrow> windowOf q (a @ ms) c"
proof -
  assume k: "kept q a b" and w: "windowOf q (b @ ms) c"
  show ?thesis
  proof (cases "b = a")
    case True
    with w show ?thesis by simp
  next
    case False
    with k have q: q and b: "b = sliceLast 6 a" by (auto simp: kept_def)
    from windowOf_cases [OF w] obtain n where n: "6 \<le> n" "n \<le> 12" "c = sliceLast n (b @ ms)"
      by blast
    then have "c = sliceLast (min n (6 + length ms)) (a @ ms)"
      by (simp add: b sliceLast_append_gen)
    moreover have "6 \<le> min n (6 + length ms)" "min n (6 + length ms) \<le> 12"
      using n by simp_all
    ultimately show ?thesis using q unfolding windowOf_def by blast
  qed
qed

lemma windowOf_windowOf:
  "windowOf q (a @ [m]) b \<Longrightarrow> windowOf q (b @ ms) c \<Longrightarrow> windowOf q (a @ m # ms) c"
proof -
  assume w1: "windowOf q (a @ [m]) b" and w2: "windowOf q (b @ ms) c"
  from windowOf_cases [OF w1]
  obtain i where i: "6 \<le> i" "i \<le> 12" "b = sliceLast i (a @ [m])" "\<not> q \<Longrightarrow> i = 12"
    by blast
  from windowOf_cases [OF w2]
  obtain n where n: "6 \<le> n" "n \<le> 12" "c = sliceLast n (b @ ms)" "\<not> q \<Longrightarrow> n = 12"
    by blast
  have c: "c = sliceLast (min n (i + length ms)) (a @ m # ms)"
    using n(3) i(3) by (simp add: sliceLast_append_gen)
  have b: "6 \<le> min n (i + length ms)" "min n (i + length ms) \<le> 12"
    using i n by simp_all
  show ?thesis
  proof (cases q)
    case True
    with c b show ?thesis unfolding windowOf_def by blast
  next
    case False
    with i(4) n(4) have "min n (i + length ms) = 12" by simp
    with c show ?thesis by (simp add: windowOf_def)
  qed
qed

lemma windowOf_form: "windowOf q a b \<Longrightarrow> \<exists>n. 6 \<le> n \<and> n \<le> 12 \<and> b = sliceLast n a"
  using windowOf_cases [of q a b] by blast

lemma windowOf_exact: "windowOf False a b \<Longrightarrow> b = sliceLast 12 a"
  by (simp add: windowOf_def)

subsection \<open>What an append does to the histories\<close>

lemma logs_update_history [simp]:
  "storedHistory (st\<lparr>logs := l\<rparr>) t k = storedHistory st t k"
  "sessionExists (st\<lparr>logs := l\<rparr>) t = sessionExists st t"
  by (simp_all add: storedHistory_def sessionExists_def)

lemma saveApiHistory_cases:
  "(\<not> sessionExists st (orElse sid (currentSessionId st)) \<and>
      saveApiHistory e k r c sid st
        = (None, st\<lparr>logs := logs st @ [LogWarn ''[saveApiHistory] Session not found'']\<rparr>)) \<or>
   (sessionExists st (orElse sid (currentSessionId st)) \<and>
      fst (appendToHistory k \<lparr>role = r, content = c\<rparr> (orElse sid (currentSessionId st)) st) \<noteq> None \<and>
      saveApiHistory e k r c sid st
        = appendToHistory k \<lparr>role = r, content = c\<rparr> (orElse sid (currentSessionId st)) st) \<or>
   (sessionExists st (orElse sid (currentSessionId st)) \<and>
      fst (appendToHistory k \<lparr>role = r, content = c\<rparr> (orElse sid (currentSessionId st)) st) = None \<and>
      saveApiHistory e k r c sid st
        = saveSessionsToStorage e None
            (snd (appendToHistory k \<lparr>role = r, content = c\<rparr> (orElse sid (currentSessionId st)) st)))"
proof -
  define t0 where "t0 = orElse sid (currentSessionId st)"
  define m where "m = \<lparr>role = r, content = c\<rparr>"
  have "(\<not> sessionExists st t0 \<and>
            saveApiHistory e k r c sid st
              = (None, st\<lparr>logs := logs st @ [LogWarn ''[saveApiHistory] Session not found'']\<rparr>)) \<or>
         (sessionExists st t0 \<and> fst (appendToHistory k m t0 st) \<noteq> None \<and>
            saveApiHistory e k r c sid st = appendToHistory k m t0 st) \<or>
         (sessionExists st t0 \<and> fst (appendToHistory k m t0 st) = None \<and>
            saveApiHistory e k r c sid st
              = saveSessionsToStorage e None (snd (appendToHistory k m t0 st)))"
  proof (cases "find (\<lambda>s. Some (id' s) = t0) (sessions st)")
  case None
  then have "\<not> sessionExists st t0" by (simp add: find_None_exists)
  with None show ?thesis
    by (simp add: saveApiHistory_def Let_def t0_def logger_def)
next
  case (Some s)
  then have ex: "sessionExists st t0" using find_None_exists [of t0 st] by auto
  obtain ra mid where a: "appendToHistory k m t0 st = (ra, mid)"
    by (cases "appendToHistory k m t0 st") auto
  show ?thesis
    using Some ex a unfolding t0_def m_def
    by (cases ra) (simp_all add: saveApiHistory_def Let_def seq_def)
  qed
  then show ?thesis unfolding t0_def m_def .
qed

lemma saveApiHistory_other:
  assumes "\<not> (t = orElse sid (currentSessionId st) \<and> k' = k)"
  shows "kept (\<not> neverQuota e) (storedHistory st t k')
           (storedHistory (snd (saveApiHistory e k r c sid st)) t k')"
  using saveApiHistory_cases [of st sid e k r c] assms
        save_kept [of e "snd (appendToHistory k \<lparr>role = r, content = c\<rparr> (orElse sid (currentSessionId st)) st)" t k']
  by (auto simp: appendToHistory_history)

lemma saveApiHistory_thrown:
  assumes "fst (saveApiHistory e k r c sid st) \<noteq> None"
  shows "storedHistory (snd (saveApiHistory e k r c sid st)) t k' = storedHistory st t k'"
  using saveApiHistory_cases [of st sid e k r c] assms
        saveSessionsToStorage_no_throw [of e None "snd (appendToHistory k \<lparr>role = r, content = c\<rparr> (orElse sid (currentSessionId st)) st)"]
  by (auto simp: appendToHistory_history)

lemma saveApiHistory_exact:
  assumes "sessionExists st (orElse sid (currentSessionId st))"
    and "fst (saveApiHistory e k r c sid st) = None"
  shows "storedHistory (snd (saveApiHistory e k r c sid st)) (orElse sid (currentSessionId st)) k =
           sliceLast (if quotaHit e (snd (appendToHistory k \<lparr>role = r, content = c\<rparr>
                                            (orElse sid (currentSessionId st)) st))
                      then 6 else 12)
             (storedHistory st (orElse sid (currentSessionId st)) k @ [\<lparr>role = r, content = c\<rparr>])"
  using saveApiHistory_cases [of st sid e k r c] assms
  by (auto simp: appendToHistory_history save_history sliceLast_sliceLast API_HISTORY_LIMIT_def)

lemma saveApiHistory_target:
  assumes "sessionExists st (orElse sid (currentSessionId st))"
    and "fst (saveApiHistory e k r c sid st) = None"
  shows "windowOf (\<not> neverQuota e)
           (storedHistory st (orElse sid (currentSessionId st)) k @ [\<lparr>role = r, content = c\<rparr>])
           (storedHistory (snd (saveApiHistory e k r c sid st)) (orElse sid (currentSessionId st)) k)"
proof -
  let ?mid = "snd (appendToHistory k \<lparr>role = r, content = c\<rparr> (orElse sid (currentSessionId st)) st)"
  show ?thesis
  proof (cases "quotaHit e ?mid")
    case True
    then have "\<not> neverQuota e" using quotaHit_never [of e ?mid] by auto
    moreover have "(6::nat) \<le> 6 \<and> (6::nat) \<le> 12" by simp
    ultimately show ?thesis
      unfolding saveApiHistory_exact [OF assms] windowOf_def using True by auto
  next
    case False
    then show ?thesis
      unfolding saveApiHistory_exact [OF assms] windowOf_def by simp
  qed
qed

lemma saveApiHistory_ok:
  assumes "k \<notin> set objectPrototypeKeys"
  shows "fst (saveApiHistory e k r c sid st) = None"
  using saveApiHistory_cases [of st sid e k r c] appendToHistory_ok [OF assms]
        saveSessionsToStorage_no_throw [of e None "snd (appendToHistory k \<lparr>role = r, content = c\<rparr> (orElse sid (currentSessionId st)) st)"]
  by auto

lemma saveApiHistory_ids:
  "map id' (sessions (snd (saveApiHistory e k r c sid st))) = map id' (sessions st)"
  using saveApiHistory_cases [of st sid e k r c]
  by (auto simp: appendToHistory_ids save_ids)

lemma saveApiHistory_exists:
  "sessionExists (snd (saveApiHistory e k r c sid st)) t = sessionExists st t"
  by (rule sessionExists_ids) (rule saveApiHistory_ids)

lemma saveApiHistory_pointer:
  "currentSessionId (snd (saveApiHistory e k r c sid st)) = currentSessionId st"
  using saveApiHistory_cases [of st sid e k r c]
  by (auto simp: appendToHistory_pointer save_pointer)

lemma orElse_truthy [simp]: "s \<noteq> [] \<Longrightarrow> orElse (Some s) b = Some s"
  by (simp add: orElse_def truthy_def)

lemma message_eta [simp]: "\<lparr>role = role m, content = content m\<rparr> = (m::message)"
  by (cases m) simp

lemma appendAll_window:
  assumes "sid \<noteq> []" and "k \<notin> set objectPrototypeKeys"
  shows "sessionExists st (Some sid) \<Longrightarrow> msgs \<noteq> [] \<Longrightarrow>
         windowOf (\<not> neverQuota e) (storedHistory st (Some sid) k @ msgs)
           (storedHistory (appendAll e k (Some sid) msgs st) (Some sid) k)"
proof (induction msgs arbitrary: st)
  case Nil
  then show ?case by simp
next
  case (Cons m ms)
  let ?st1 = "snd (saveApiHistory e k (role m) (content m) (Some sid) st)"
  have ex: "sessionExists st (orElse (Some sid) (currentSessionId st))"
    using Cons.prems(1) assms(1) by simp
  have ok: "fst (saveApiHistory e k (role m) (content m) (Some sid) st) = None"
    by (rule saveApiHistory_ok [OF assms(2)])
  have w1: "windowOf (\<not> neverQuota e) (storedHistory st (Some sid) k @ [m])
              (storedHistory ?st1 (Some sid) k)"
    using saveApiHistory_target [OF ex ok] assms(1) by simp
  show ?case
  proof (cases "ms = []")
    case True
    with w1 show ?thesis by simp
  next
    case False
    have ex1: "sessionExists ?st1 (Some sid)"
      using Cons.prems(1) by (simp add: saveApiHistory_exists)
    from windowOf_windowOf [OF w1 Cons.IH [OF ex1 False]] show ?thesis by simp
  qed
qed

lemma quotaHit_envQuota: "quotaHit envQuota st"
  by (simp add: quotaHit_def saveBody_envQuota isQuotaError_def)

lemma neverQuota_env0: "neverQuota env0"
  by (simp add: neverQuota_def env0_def)

text \<open>
  C3, as stated: after every append the list holds exactly the most recent 12 appended
  entries. It fails when the save that follows the append meets a full storage: with
  twelve messages stored, appending a thirteenth leaves six messages, not twelve. It
  also fails for a service key that names a member of \<open>Object.prototype\<close>:
  \<open>saveApiHistory\<close> throws and nothing is stored.
\<close>

theorem saveApiHistory_cut_below_twelve:
  "storedHistory storeTwelve (Some ''a'') ''x'' =
     map msg [''m1'', ''m2'', ''m3'', ''m4'', ''m5'', ''m6'', ''m7'', ''m8'', ''m9'', ''m10'',
              ''m11'', ''m12''] \<and>
   storedHistory (snd (saveApiHistory envQuota ''x'' ''user'' ''m13'' (Some ''a'') storeTwelve))
     (Some ''a'') ''x'' =
     map msg [''m8'', ''m9'', ''m10'', ''m11'', ''m12'', ''m13''] \<and>
   fst (saveApiHistory env0 ''constructor'' ''user'' ''hi'' (Some ''a'') storeAB) = Some typeError \<and>
   storedHistory (snd (saveApiHistory env0 ''constructor'' ''user'' ''hi'' (Some ''a'') storeAB))
     (Some ''a'') ''constructor'' = []"
proof -
  have h0: "storedHistory storeTwelve (Some ''a'') ''x'' =
     map msg [''m1'', ''m2'', ''m3'', ''m4'', ''m5'', ''m6'', ''m7'', ''m8'', ''m9'', ''m10'',
              ''m11'', ''m12'']"
    by (simp add: storedHistory_def storeTwelve_def store0_def exampleSession_def)
  have ex: "sessionExists storeTwelve (orElse (Some ''a'') (currentSessionId storeTwelve))"
    by (simp add: sessionExists_def storeTwelve_def store0_def exampleSession_def)
  have ok: "fst (saveApiHistory envQuota ''x'' ''user'' ''m13'' (Some ''a'') storeTwelve) = None"
    by (rule saveApiHistory_ok) (simp add: objectPrototypeKeys_def)
  have cut: "storedHistory (snd (saveApiHistory envQuota ''x'' ''user'' ''m13'' (Some ''a'') storeTwelve))
     (Some ''a'') ''x'' = map msg [''m8'', ''m9'', ''m10'', ''m11'', ''m12'', ''m13'']"
    using saveApiHistory_exact [OF ex ok]
    by (simp add: quotaHit_envQuota h0 sliceLast_def msg_def)
  have thrown: "saveApiHistory env0 ''constructor'' ''user'' ''hi'' (Some ''a'') storeAB
                  = (Some typeError, storeAB)"
    by (simp add: saveApiHistory_def Let_def seq_def appendToHistory_def pushMessage_def
        objectPrototypeKeys_def storeAB_def store0_def exampleSession_def)
  have "storedHistory storeAB (Some ''a'') ''constructor'' = []"
    by (simp add: storedHistory_def storeAB_def store0_def exampleSession_def)
  with h0 cut thrown show ?thesis by simp
qed

text \<open>
  C3, amended. For a service key that is not the name of a member of \<open>Object.prototype\<close>
  and an existing session: after every non-empty sequence of appends the stored list is
  the last \<open>n\<close> entries of the old list followed by the appended messages, in their
  order, for some \<open>n\<close> from 6 to 12, so it never holds more than 12 entries; on a host
  that never reports a full storage it is exactly the last 12. After a single append
  the list is the last 12 entries of the old list followed by the new message when the
  save that follows does not meet a full storage, and the last 6 when it does (the
  quota recovery of the save, C5, cuts every history to 6).
\<close>

theorem saveApiHistory_sliding_window:
  assumes "sid \<noteq> []" and "sessionExists st (Some sid)" and "k \<notin> set objectPrototypeKeys"
    and "msgs \<noteq> []"
  shows "(\<exists>n. 6 \<le> n \<and> n \<le> 12 \<and>
              storedHistory (appendAll e k (Some sid) msgs st) (Some sid) k =
                sliceLast n (storedHistory st (Some sid) k @ msgs)) \<and>
         length (storedHistory (appendAll e k (Some sid) msgs st) (Some sid) k) \<le> 12 \<and>
         (neverQuota e \<longrightarrow>
            storedHistory (appendAll e k (Some sid) msgs st) (Some sid) k =
              sliceLast 12 (storedHistory st (Some sid) k @ msgs)) \<and>
         storedHistory (snd (saveApiHistory e k r c (Some sid) st)) (Some sid) k =
           sliceLast (if quotaHit e (snd (appendToHistory k \<lparr>role = r, content = c\<rparr> (Some sid) st))
                      then 6 else 12)
             (storedHistory st (Some sid) k @ [\<lparr>role = r, content = c\<rparr>])"
proof -
  note w = appendAll_window [OF assms(1,3,2,4), of e]
  from windowOf_form [OF w] obtain n where n: "6 \<le> n" "n \<le> 12"
    "storedHistory (appendAll e k (Some sid) msgs st) (Some sid) k =
       sliceLast n (storedHistory st (Some sid) k @ msgs)" by blast
  then have len: "length (storedHistory (appendAll e k (Some sid) msgs st) (Some sid) k) \<le> 12"
    by (simp add: sliceLast_length)
  have exact: "neverQuota e \<longrightarrow>
            storedHistory (appendAll e k (Some sid) msgs st) (Some sid) k =
              sliceLast 12 (storedHistory st (Some sid) k @ msgs)"
    using w windowOf_exact by auto
  have ex: "sessionExists st (orElse (Some sid) (currentSessionId st))"
    using assms(1,2) by simp
  have single: "storedHistory (snd (saveApiHistory e k r c (Some sid) st)) (Some sid) k =
           sliceLast (if quotaHit e (snd (appendToHistory k \<lparr>role = r, content = c\<rparr> (Some sid) st))
                      then 6 else 12)
             (storedHistory st (Some sid) k @ [\<lparr>role = r, content = c\<rparr>])"
    using saveApiHistory_exact [OF ex saveApiHistory_ok [OF assms(3)], of e r c] assms(1) by simp
  from n len exact single show ?thesis by blast
qed

theorem saveApiHistory_sliding_window_witness:
  "storedHistory
     (appendAll env0 ''x'' (Some ''a'')
        (map msg [''m1'', ''m2'', ''m3'', ''m4'', ''m5'', ''m6'', ''m7'', ''m8'', ''m9'', ''m10'',
                  ''m11'', ''m12'', ''m13'', ''m14''])
        storeAB)
     (Some ''a'') ''x''
   = map msg [''m3'', ''m4'', ''m5'', ''m6'', ''m7'', ''m8'', ''m9'', ''m10'', ''m11'', ''m12'',
              ''m13'', ''m14''] \<and>
   storedHistory (snd (saveApiHistory env0 ''x'' ''user'' ''hi'' (Some ''a'') storeAB)) (Some ''a'') ''x''
   = [msg ''hi'']"
proof -
  have ex: "sessionExists storeAB (Some ''a'')"
    by (simp add: sessionExists_def storeAB_def store0_def exampleSession_def)
  have h0: "storedHistory storeAB (Some ''a'') ''x'' = []"
    by (simp add: storedHistory_def storeAB_def store0_def exampleSession_def)
  have k: "''x'' \<notin> set objectPrototypeKeys"
    by (simp add: objectPrototypeKeys_def)
  have nq: "\<not> quotaHit env0 st" for st
    by (rule quotaHit_never [OF neverQuota_env0])
  show ?thesis
    using saveApiHistory_sliding_window [OF _ ex k, of
        "map msg [''m1'', ''m2'', ''m3'', ''m4'', ''m5'', ''m6'', ''m7'', ''m8'', ''m9'', ''m10'',
                  ''m11'', ''m12'', ''m13'', ''m14'']" env0 "''user''" "''hi''"]
    by (simp add: h0 sliceLast_def neverQuota_env0 nq msg_def)
qed

subsection \<open>Requests and the session they were sent from\<close>

lemma handleApiChat_start_store:
  "snd (handleApiChat_start e aiKey prompt pnl sessionId st) = st"
  by (simp add: handleApiChat_start_def appendApiMessage_def Let_def)

lemma handleApiChat_start_request:
  "fst (handleApiChat_start e aiKey prompt pnl sessionId st) =
     \<lparr>req_aiKey = aiKey, req_prompt = prompt, req_panel = pnl,
      req_target = orElse sessionId (currentSessionId st)\<rparr>"
  by (simp add: handleApiChat_start_def Let_def)

lemma dispatchAll_Cons_None:
  "wv a = None \<Longrightarrow>
   dispatchAll e prompt cap wv (a # ks) st
     = dispatchAll e prompt cap wv ks
         (st\<lparr>logs := logs st @ [LogError ''Webview not found in current session'']\<rparr>)"
  by simp

lemma dispatchAll_Cons_store:
  "wv a = Some pnl \<Longrightarrow>
   fst (dispatchAll e prompt cap wv (a # ks) st)
     = fst (dispatchAll e prompt cap wv ks
              (snd (saveApiHistory e a ''user'' prompt cap
                      (st\<lparr>logs := logs st @ [LogInfo ''Handling API chat'']\<rparr>))))"
  by (simp add: handleApiChat_start_def appendApiMessage_def Let_def split: prod.splits option.splits)

lemma dispatchAll_Cons_requests:
  "wv a = Some pnl \<Longrightarrow>
   fst (snd (dispatchAll e prompt cap wv (a # ks) st))
     = (if fst (saveApiHistory e a ''user'' prompt cap
                  (st\<lparr>logs := logs st @ [LogInfo ''Handling API chat'']\<rparr>)) = None
        then [\<lparr>req_aiKey = a, req_prompt = prompt, req_panel = pnl,
               req_target = orElse cap (currentSessionId st)\<rparr>]
        else [])
       @ fst (snd (dispatchAll e prompt cap wv ks
                (snd (saveApiHistory e a ''user'' prompt cap
                        (st\<lparr>logs := logs st @ [LogInfo ''Handling API chat'']\<rparr>)))))"
proof -
  assume wv: "wv a = Some pnl"
  obtain r st1 where sa: "saveApiHistory e a ''user'' prompt cap
                  (st\<lparr>logs := logs st @ [LogInfo ''Handling API chat'']\<rparr>) = (r, st1)"
    by (cases "saveApiHistory e a ''user'' prompt cap
                  (st\<lparr>logs := logs st @ [LogInfo ''Handling API chat'']\<rparr>)") auto
  have ptr: "currentSessionId st1 = currentSessionId st"
    using saveApiHistory_pointer [of e a "''user''" prompt cap
            "st\<lparr>logs := logs st @ [LogInfo ''Handling API chat'']\<rparr>"] sa by simp
  show ?thesis
    using wv sa ptr
    by (cases r) (simp_all add: handleApiChat_start_def appendApiMessage_def Let_def split: prod.splits)
qed

lemma dispatchAll_requests:
  assumes "s1 \<noteq> []"
  shows "req \<in> set (fst (snd (dispatchAll e prompt (Some s1) wv keys st))) \<Longrightarrow>
         req_target req = Some s1 \<and> req_prompt req = prompt \<and> req_aiKey req \<in> set keys \<and>
         wv (req_aiKey req) = Some (req_panel req)"
proof (induction keys arbitrary: st)
  case Nil
  then show ?case by simp
next
  case (Cons a ks)
  show ?case
  proof (cases "wv a")
    case None
    with Cons show ?thesis by (auto simp: dispatchAll_Cons_None simp del: dispatchAll.simps)
  next
    case (Some pnl)
    let ?st1 = "snd (saveApiHistory e a ''user'' prompt (Some s1)
                       (st\<lparr>logs := logs st @ [LogInfo ''Handling API chat'']\<rparr>))"
    from Cons.prems have
      "req = \<lparr>req_aiKey = a, req_prompt = prompt, req_panel = pnl,
               req_target = orElse (Some s1) (currentSessionId st)\<rparr> \<or>
       req \<in> set (fst (snd (dispatchAll e prompt (Some s1) wv ks ?st1)))"
      unfolding dispatchAll_Cons_requests [where wv = wv, OF Some] by (auto split: if_splits)
    then show ?thesis
    proof
      assume "req = \<lparr>req_aiKey = a, req_prompt = prompt, req_panel = pnl,
               req_target = orElse (Some s1) (currentSessionId st)\<rparr>"
      then show ?thesis using assms Some by simp
    next
      assume "req \<in> set (fst (snd (dispatchAll e prompt (Some s1) wv ks ?st1)))"
      from Cons.IH [OF this] show ?thesis by auto
    qed
  qed
qed

lemma dispatchAll_exists:
  "sessionExists (fst (dispatchAll e prompt cap wv keys st)) t = sessionExists st t"
proof (induction keys arbitrary: st)
  case Nil
  then show ?case by simp
next
  case (Cons a ks)
  show ?case
  proof (cases "wv a")
    case None
    then show ?thesis by (simp add: Cons.IH)
  next
    case (Some pnl)
    show ?thesis
      unfolding dispatchAll_Cons_store [where wv = wv, OF Some]
      by (simp add: Cons.IH saveApiHistory_exists)
  qed
qed

lemma dispatchAll_pointer:
  "currentSessionId (fst (dispatchAll e prompt cap wv keys st)) = currentSessionId st"
proof (induction keys arbitrary: st)
  case Nil
  then show ?case by simp
next
  case (Cons a ks)
  show ?case
  proof (cases "wv a")
    case None
    then show ?thesis by (simp add: Cons.IH)
  next
    case (Some pnl)
    show ?thesis
      unfolding dispatchAll_Cons_store [where wv = wv, OF Some]
      by (simp add: Cons.IH saveApiHistory_pointer)
  qed
qed

lemma dispatchAll_other:
  assumes "s1 \<noteq> []"
  shows "t \<noteq> Some s1 \<or> k \<notin> set keys \<Longrightarrow>
         kept (\<not> neverQuota e) (storedHistory st t k)
           (storedHistory (fst (dispatchAll e prompt (Some s1) wv keys st)) t k)"
proof (induction keys arbitrary: st)
  case Nil
  then show ?case by simp
next
  case (Cons a ks)
  then have rest: "t \<noteq> Some s1 \<or> k \<notin> set ks" by auto
  show ?case
  proof (cases "wv a")
    case None
    show ?thesis
      unfolding dispatchAll_Cons_None [where wv = wv, OF None]
      using Cons.IH [OF rest, of "st\<lparr>logs := logs st @ [LogError ''Webview not found in current session'']\<rparr>"]
      by simp
  next
    case (Some pnl)
    let ?st0 = "st\<lparr>logs := logs st @ [LogInfo ''Handling API chat'']\<rparr>"
    let ?st1 = "snd (saveApiHistory e a ''user'' prompt (Some s1) ?st0)"
    have "\<not> (t = orElse (Some s1) (currentSessionId ?st0) \<and> k = a)"
      using Cons.prems assms by auto
    from saveApiHistory_other [OF this, of e "''user''" prompt]
    have k1: "kept (\<not> neverQuota e) (storedHistory st t k) (storedHistory ?st1 t k)" by simp
    show ?thesis
      unfolding dispatchAll_Cons_store [where wv = wv, OF Some]
      using kept_trans [OF k1 Cons.IH [OF rest, of ?st1]] .
  qed
qed

lemma dispatchAll_target:
  assumes "s1 \<noteq> []"
  shows "distinct keys \<Longrightarrow> sessionExists st (Some s1) \<Longrightarrow>
         req \<in> set (fst (snd (dispatchAll e prompt (Some s1) wv keys st))) \<Longrightarrow>
         windowOf (\<not> neverQuota e)
           (storedHistory st (Some s1) (req_aiKey req) @ [\<lparr>role = ''user'', content = prompt\<rparr>])
           (storedHistory (fst (dispatchAll e prompt (Some s1) wv keys st)) (Some s1) (req_aiKey req))"
proof (induction keys arbitrary: st)
  case Nil
  then show ?case by simp
next
  case (Cons a ks)
  then have dk: "distinct ks" and na: "a \<notin> set ks" by simp_all
  show ?case
  proof (cases "wv a")
    case None
    have ex: "sessionExists (st\<lparr>logs := logs st @ [LogError ''Webview not found in current session'']\<rparr>) (Some s1)"
      using Cons.prems(2) by simp
    show ?thesis
      using Cons.prems(3) Cons.IH [OF dk ex] unfolding dispatchAll_Cons_None [where wv = wv, OF None]
      by simp
  next
    case (Some pnl)
    let ?st0 = "st\<lparr>logs := logs st @ [LogInfo ''Handling API chat'']\<rparr>"
    let ?r = "fst (saveApiHistory e a ''user'' prompt (Some s1) ?st0)"
    let ?st1 = "snd (saveApiHistory e a ''user'' prompt (Some s1) ?st0)"
    let ?u = "\<lparr>role = ''user'', content = prompt\<rparr>"
    have ex1: "sessionExists ?st1 (Some s1)"
      using Cons.prems(2) by (simp add: saveApiHistory_exists)
    from Cons.prems(3) have
      "(?r = None \<and> req_aiKey req = a) \<or>
       req \<in> set (fst (snd (dispatchAll e prompt (Some s1) wv ks ?st1)))"
      unfolding dispatchAll_Cons_requests [where wv = wv, OF Some] by (auto split: if_splits)
    then show ?thesis
    proof
      assume h: "?r = None \<and> req_aiKey req = a"
      have ex0: "sessionExists ?st0 (orElse (Some s1) (currentSessionId ?st0))"
        using Cons.prems(2) assms by simp
      from saveApiHistory_target [OF ex0, of e a "''user''" prompt] h assms
      have w: "windowOf (\<not> neverQuota e) (storedHistory st (Some s1) a @ [?u])
                 (storedHistory ?st1 (Some s1) a)" by simp
      have "kept (\<not> neverQuota e) (storedHistory ?st1 (Some s1) a)
              (storedHistory (fst (dispatchAll e prompt (Some s1) wv ks ?st1)) (Some s1) a)"
        by (rule dispatchAll_other [OF assms]) (use na in simp)
      from windowOf_kept [OF w this] h show ?thesis
        unfolding dispatchAll_Cons_store [where wv = wv, OF Some] by simp
    next
      assume mem: "req \<in> set (fst (snd (dispatchAll e prompt (Some s1) wv ks ?st1)))"
      from dispatchAll_requests [OF assms mem] na have ne: "req_aiKey req \<noteq> a" by auto
      then have "\<not> (Some s1 = orElse (Some s1) (currentSessionId ?st0) \<and> req_aiKey req = a)"
        by simp
      from saveApiHistory_other [OF this, of e "''user''" prompt]
      have k1: "kept (\<not> neverQuota e) (storedHistory st (Some s1) (req_aiKey req))
                  (storedHistory ?st1 (Some s1) (req_aiKey req))" by simp
      from kept_windowOf [OF k1 Cons.IH [OF dk ex1 mem]] show ?thesis
        unfolding dispatchAll_Cons_store [where wv = wv, OF Some] .
    qed
  qed
qed

lemma sendPrompt_requests:
  assumes "sendPromptToSelectedAIs e (Some prompt) selected wv st = (st1, reqs)" and "reqs \<noteq> []"
  shows "reqs = fst (snd (dispatchAll e prompt (currentSessionId st) wv selected st)) \<and>
         storedHistory st1 t k
           = storedHistory (fst (dispatchAll e prompt (currentSessionId st) wv selected st)) t k \<and>
         sessionExists st1 t
           = sessionExists (fst (dispatchAll e prompt (currentSessionId st) wv selected st)) t \<and>
         currentSessionId st1
           = currentSessionId (fst (dispatchAll e prompt (currentSessionId st) wv selected st))"
  using assms
  by (auto simp: sendPromptToSelectedAIs_def Let_def split: if_splits prod.splits)

lemma updateFirst_history:
  assumes "\<And>x. id' (f x) = id' x" and "\<And>x. apiChatHistory (f x) = apiChatHistory x"
  shows "map_option (\<lambda>s. historyIn s k) (find (\<lambda>s. Some (id' s) = t) (updateFirst P f xs))
           = map_option (\<lambda>s. historyIn s k) (find (\<lambda>s. Some (id' s) = t) xs)"
  by (induction xs) (auto simp: assms historyIn_def)

lemma storedHistory_option:
  "storedHistory st t k =
     (case map_option (\<lambda>s. historyIn s k) (find (\<lambda>s. Some (id' s) = t) (sessions st)) of
        None \<Rightarrow> [] | Some h \<Rightarrow> h)"
  by (simp add: storedHistory_alt split: option.splits)

lemma setPromptDraft_history:
  "storedHistory (setPromptDraft v st) t k = storedHistory st t k"
proof (cases "find (\<lambda>s. Some (id' s) = currentSessionId st) (sessions st)")
  case (Some s)
  then show ?thesis
    unfolding storedHistory_option by (simp add: setPromptDraft_def updateFirst_history)
next
  case None
  then show ?thesis
    by (cases "sessions st") (simp_all add: setPromptDraft_def storedHistory_alt historyIn_def)
qed

lemma setPromptDraft_ids: "map id' (sessions (setPromptDraft v st)) = map id' (sessions st)"
  by (cases "sessions st")
     (simp_all add: setPromptDraft_def updateFirst_ids split: option.splits)

lemma setPromptDraft_exists: "sessionExists (setPromptDraft v st) t = sessionExists st t"
  by (rule sessionExists_ids) (rule setPromptDraft_ids)

lemma getCurrentSession_None: "(getCurrentSession st = None) = (sessions st = [])"
  by (auto simp: getCurrentSession_def find_None_iff split: option.splits list.splits)

lemma pointer_update_history [simp]:
  "storedHistory (st\<lparr>currentSessionId := p\<rparr>) t k = storedHistory st t k"
  "sessionExists (st\<lparr>currentSessionId := p\<rparr>) t = sessionExists st t"
  by (simp_all add: storedHistory_def sessionExists_def)

lemma switchToSession_unfold:
  assumes "Some s2 \<noteq> currentSessionId st" and "sessions st \<noteq> []"
  shows "switchToSession e promptInput s2 st =
           saveSessionsToStorage e None
             (setCurrentSessionId (Some s2)
                (snd (saveSessionsToStorage e None
                        (case promptInput of None \<Rightarrow> st | Some v \<Rightarrow> setPromptDraft v st))))"
proof -
  let ?a = "case promptInput of None \<Rightarrow> st | Some v \<Rightarrow> setPromptDraft v st"
  obtain b where b: "saveSessionsToStorage e None ?a = (None, b)"
    using saveSessionsToStorage_no_throw [of e None ?a]
    by (cases "saveSessionsToStorage e None ?a") auto
  have "map id' (sessions b) = map id' (sessions ?a)"
    using save_ids [of e ?a] b by simp
  moreover have "map id' (sessions ?a) = map id' (sessions st)"
    by (cases promptInput) (simp_all add: setPromptDraft_ids)
  ultimately have "sessions b \<noteq> []" using assms(2) by auto
  then have "getCurrentSession (setCurrentSessionId (Some s2) b) \<noteq> None"
    by (simp add: getCurrentSession_None setCurrentSessionId_def)
  then show ?thesis
    using assms(1) b
    by (auto simp: switchToSession_def seq_def split: option.splits)
qed

lemma switchToSession_effect:
  assumes "Some s2 \<noteq> currentSessionId st" and "sessions st \<noteq> []"
  shows "fst (switchToSession e promptInput s2 st) = None \<and>
         currentSessionId (snd (switchToSession e promptInput s2 st)) = Some s2 \<and>
         sessionExists (snd (switchToSession e promptInput s2 st)) t = sessionExists st t \<and>
         kept (\<not> neverQuota e) (storedHistory st t k)
           (storedHistory (snd (switchToSession e promptInput s2 st)) t k)"
proof -
  let ?a = "case promptInput of None \<Rightarrow> st | Some v \<Rightarrow> setPromptDraft v st"
  let ?b = "snd (saveSessionsToStorage e None ?a)"
  let ?c = "setCurrentSessionId (Some s2) ?b"
  have a: "storedHistory ?a t k = storedHistory st t k" "sessionExists ?a t = sessionExists st t"
    by (cases promptInput; simp add: setPromptDraft_history setPromptDraft_exists)+
  have c: "storedHistory ?c t k = storedHistory ?b t k" "sessionExists ?c t = sessionExists ?b t"
    by (simp_all add: setCurrentSessionId_def)
  have k1: "kept (\<not> neverQuota e) (storedHistory st t k) (storedHistory ?c t k)"
    using save_kept [of e ?a t k] by (simp add: a c)
  have k2: "kept (\<not> neverQuota e) (storedHistory st t k)
              (storedHistory (snd (saveSessionsToStorage e None ?c)) t k)"
    using kept_trans [OF k1 save_kept [of e ?c t k]] .
  have ex: "sessionExists (snd (saveSessionsToStorage e None ?c)) t = sessionExists st t"
    by (simp add: save_exists c a)
  have ptr: "currentSessionId (snd (saveSessionsToStorage e None ?c)) = Some s2"
    by (simp add: save_pointer setCurrentSessionId_def)
  show ?thesis
    unfolding switchToSession_unfold [OF assms]
    using k2 ex ptr saveSessionsToStorage_no_throw [of e None ?c] by simp
qed

lemma finish_unfold:
  assumes "req_target req = Some s1" and "s1 \<noteq> []"
    and "p_aiKey (req_panel req) \<notin> set objectPrototypeKeys"
  shows "handleApiChat_finish e req (Response answer) st =
           saveSessionsToStorage e None
             (snd (saveApiHistory e (p_aiKey (req_panel req)) ''assistant'' answer (Some s1)
                     (st\<lparr>logs := logs st @ [LogInfo ''[handleApiChat] Saving assistant response'']\<rparr>)))"
proof -
  let ?st0 = "st\<lparr>logs := logs st @ [LogInfo ''[handleApiChat] Saving assistant response'']\<rparr>"
  obtain st1 where s: "saveApiHistory e (p_aiKey (req_panel req)) ''assistant'' answer (Some s1) ?st0
                         = (None, st1)"
    using saveApiHistory_ok [OF assms(3), of e "''assistant''" answer "Some s1" ?st0]
    by (cases "saveApiHistory e (p_aiKey (req_panel req)) ''assistant'' answer (Some s1) ?st0") auto
  obtain st2 where v: "saveSessionsToStorage e None st1 = (None, st2)"
    using saveSessionsToStorage_no_throw [of e None st1]
    by (cases "saveSessionsToStorage e None st1") auto
  show ?thesis
    using assms(1,2) s v
    by (simp add: handleApiChat_finish_def tryCatch_def seq_def logger_def appendApiMessage_def)
qed

lemma finish_effect:
  assumes "req_target req = Some s1" and "s1 \<noteq> []"
    and "p_aiKey (req_panel req) \<notin> set objectPrototypeKeys"
  shows "fst (handleApiChat_finish e req (Response answer) st) = None \<and>
         (sessionExists st (Some s1) \<longrightarrow>
            windowOf (\<not> neverQuota e)
              (storedHistory st (Some s1) (p_aiKey (req_panel req))
                 @ [\<lparr>role = ''assistant'', content = answer\<rparr>])
              (storedHistory (snd (handleApiChat_finish e req (Response answer) st)) (Some s1)
                 (p_aiKey (req_panel req)))) \<and>
         (t \<noteq> Some s1 \<longrightarrow>
            kept (\<not> neverQuota e) (storedHistory st t k)
              (storedHistory (snd (handleApiChat_finish e req (Response answer) st)) t k))"
proof -
  let ?st0 = "st\<lparr>logs := logs st @ [LogInfo ''[handleApiChat] Saving assistant response'']\<rparr>"
  let ?pk = "p_aiKey (req_panel req)"
  let ?st1 = "snd (saveApiHistory e ?pk ''assistant'' answer (Some s1) ?st0)"
  have ok: "fst (saveApiHistory e ?pk ''assistant'' answer (Some s1) ?st0) = None"
    by (rule saveApiHistory_ok [OF assms(3)])
  have target: "windowOf (\<not> neverQuota e)
              (storedHistory st (Some s1) ?pk @ [\<lparr>role = ''assistant'', content = answer\<rparr>])
              (storedHistory (snd (saveSessionsToStorage e None ?st1)) (Some s1) ?pk)"
    if ex: "sessionExists st (Some s1)"
  proof -
    have ex0: "sessionExists ?st0 (orElse (Some s1) (currentSessionId ?st0))"
      using ex assms(2) by simp
    from saveApiHistory_target [OF ex0 ok] assms(2)
    have "windowOf (\<not> neverQuota e)
            (storedHistory st (Some s1) ?pk @ [\<lparr>role = ''assistant'', content = answer\<rparr>])
            (storedHistory ?st1 (Some s1) ?pk)" by simp
    from windowOf_kept [OF this save_kept [of e ?st1 "Some s1" ?pk]] show ?thesis .
  qed
  have other: "kept (\<not> neverQuota e) (storedHistory st t k)
              (storedHistory (snd (saveSessionsToStorage e None ?st1)) t k)"
    if ne: "t \<noteq> Some s1"
  proof -
    have "\<not> (t = orElse (Some s1) (currentSessionId ?st0) \<and> k = ?pk)"
      using ne assms(2) by simp
    from saveApiHistory_other [OF this, of e "''assistant''" answer]
    have "kept (\<not> neverQuota e) (storedHistory st t k) (storedHistory ?st1 t k)" by simp
    from kept_trans [OF this save_kept [of e ?st1 t k]] show ?thesis .
  qed
  show ?thesis
    unfolding finish_unfold [OF assms]
    using target other by (simp add: saveSessionsToStorage_no_throw)
qed

lemma kept_forms:
  "kept q h h1 \<Longrightarrow> h1 = h \<or> h1 = trimHistory maxHistoryPerAI h"
  by (auto simp: kept_def trimHistory_sliceLast maxHistoryPerAI_def)

lemmas chat_eval =
  sendPromptToSelectedAIs_def Let_def getCurrentSession_def saveApiHistory_def appendToHistory_def
  pushMessage_def objectPrototypeKeys_def orElse_def truthy_def seq_def logger_def
  handleApiChat_start_def appendApiMessage_def API_HISTORY_LIMIT_def sliceLast_def
  saveSessionsToStorage_def tryCatch_def saveBody_def ret_def setItem_def runAfterSaveHook_def
  quotaRecovery_def trimAllApiHistory_def trimSession_def trimHistory_def sessionFreed_def
  retrySave_def isQuotaError_def maxHistoryPerAI_def currentSessionIdString_def
  switchToSession_def setCurrentSessionId_def setPromptDraft_def handleApiChat_finish_def
  storedHistory_def exampleSession_def store0_def env0_def envQuota_def webviewsXY_def msg_def
  SESSIONS_def CURRENT_SESSION_def SESSION_COUNTER_def

text \<open>
  C4, as stated: the history of the session that is current when the response arrives
  is unchanged. It fails when the storage is full: a prompt is sent from session \<open>a\<close>,
  the user switches to session \<open>b\<close>, whose history for the service holds seven messages,
  and the response arrives. No message is written to \<open>b\<close>, but the saves made on the
  way run the quota recovery, which cuts the history of \<open>b\<close> to its last six messages.
\<close>

theorem other_session_history_trimmed:
  "storedHistory storeSeven (Some ''b'') ''x''
     = map msg [''o1'', ''o2'', ''o3'', ''o4'', ''o5'', ''o6'', ''o7''] \<and>
   snd (sendPromptToSelectedAIs envQuota (Some ''hi'') [''x''] webviewsXY storeSeven) = [requestX] \<and>
   storedHistory
     (snd (handleApiChat_finish envQuota requestX (Response ''answer'')
        (snd (switchToSession envQuota None ''b''
           (fst (sendPromptToSelectedAIs envQuota (Some ''hi'') [''x''] webviewsXY storeSeven))))))
     (Some ''b'') ''x''
     = map msg [''o2'', ''o3'', ''o4'', ''o5'', ''o6'', ''o7'']"
  by (simp add: chat_eval storeSeven_def requestX_def)

text \<open>
  C4, amended. A prompt is sent while session \<open>s1\<close> is current; every request started
  by the dispatch carries \<open>s1\<close> as its target, and the user message is appended to the
  history of \<open>s1\<close> for the request's service. If the user then switches to any other
  session \<open>s2\<close> and the response arrives, the assistant message is appended to the
  history of \<open>s1\<close> for the panel's service, whatever the current session is, and no
  message is appended to a history of \<open>s2\<close>: every history of \<open>s2\<close> is what it was before
  the prompt was sent, or its last 6 entries. On a host that never reports a full
  storage the histories of \<open>s2\<close> are unchanged and the two appends leave the last 12
  entries; otherwise a quota recovery on the way may have cut any history, so that an
  appended list is the last \<open>n\<close> entries for some \<open>n\<close> from 6 to 12. \<open>s1\<close> is the non-empty
  id of an existing session, and the panel's service key is not the name of a member of
  \<open>Object.prototype\<close>.
\<close>

theorem response_goes_to_captured_session:
  assumes "currentSessionId st0 = Some s1" and "s1 \<noteq> []" and "sessionExists st0 (Some s1)"
    and "s2 \<noteq> s1" and "distinct selected"
    and "sendPromptToSelectedAIs e (Some prompt) selected sessionWebviews st0 = (st1, reqs)"
    and "req \<in> set reqs"
    and "p_aiKey (req_panel req) \<notin> set objectPrototypeKeys"
    and "switchToSession e promptInput s2 st1 = (r2, st2)"
    and "handleApiChat_finish e req (Response answer) st2 = (r3, st3)"
  shows "req_target req = Some s1 \<and> currentSessionId st2 = Some s2 \<and> r3 = None \<and>
         (\<exists>n. 6 \<le> n \<and> n \<le> 12 \<and>
              storedHistory st1 (Some s1) (req_aiKey req) =
                sliceLast n (storedHistory st0 (Some s1) (req_aiKey req) @
                               [\<lparr>role = ''user'', content = prompt\<rparr>])) \<and>
         (\<exists>n. 6 \<le> n \<and> n \<le> 12 \<and>
              storedHistory st3 (Some s1) (p_aiKey (req_panel req)) =
                sliceLast n (storedHistory st1 (Some s1) (p_aiKey (req_panel req)) @
                               [\<lparr>role = ''assistant'', content = answer\<rparr>])) \<and>
         (\<forall>k. storedHistory st3 (Some s2) k = storedHistory st0 (Some s2) k \<or>
              storedHistory st3 (Some s2) k
                = trimHistory maxHistoryPerAI (storedHistory st0 (Some s2) k)) \<and>
         (neverQuota e \<longrightarrow>
            storedHistory st1 (Some s1) (req_aiKey req) =
              sliceLast 12 (storedHistory st0 (Some s1) (req_aiKey req) @
                              [\<lparr>role = ''user'', content = prompt\<rparr>]) \<and>
            storedHistory st3 (Some s1) (p_aiKey (req_panel req)) =
              sliceLast 12 (storedHistory st1 (Some s1) (p_aiKey (req_panel req)) @
                              [\<lparr>role = ''assistant'', content = answer\<rparr>]) \<and>
            (\<forall>k. storedHistory st3 (Some s2) k = storedHistory st0 (Some s2) k))"
proof -
  let ?q = "\<not> neverQuota e"
  let ?D = "dispatchAll e prompt (Some s1) sessionWebviews selected st0"
  have ne: "reqs \<noteq> []" using assms(7) by auto
  note sp = sendPrompt_requests [OF assms(6) ne, unfolded assms(1)]
  have rq: "req \<in> set (fst (snd ?D))" using sp assms(7) by simp
  have h1: "storedHistory st1 t k = storedHistory (fst ?D) t k" for t k using sp by simp
  have ex1: "sessionExists st1 t = sessionExists st0 t" for t
    using sp by (simp add: dispatchAll_exists)
  have p1: "currentSessionId st1 = Some s1"
    using sp by (simp add: dispatchAll_pointer assms(1))
  have tgt: "req_target req = Some s1"
    using dispatchAll_requests [OF assms(2) rq] by simp
  have user: "windowOf ?q (storedHistory st0 (Some s1) (req_aiKey req) @ [\<lparr>role = ''user'', content = prompt\<rparr>])
                (storedHistory st1 (Some s1) (req_aiKey req))"
    unfolding h1 by (rule dispatchAll_target [OF assms(2,5,3) rq])
  have k01: "kept ?q (storedHistory st0 (Some s2) k) (storedHistory st1 (Some s2) k)" for k
    unfolding h1 by (rule dispatchAll_other [OF assms(2)]) (use assms(4) in simp)
  have ne1: "sessions st1 \<noteq> []"
    using ex1 [of "Some s1"] assms(3) by (auto simp: sessionExists_def)
  have sw: "Some s2 \<noteq> currentSessionId st1" using p1 assms(4) by simp
  note se = switchToSession_effect [OF sw ne1, of e promptInput]
  have p2: "currentSessionId st2 = Some s2" using se assms(9) by simp
  have ex2: "sessionExists st2 (Some s1)" using se [of "Some s1"] assms(9,3) ex1 by simp
  have k12: "kept ?q (storedHistory st1 t k) (storedHistory st2 t k)" for t k
    using se [of t k] assms(9) by simp
  note fe = finish_effect [OF tgt assms(2,8), of e answer st2]
  have r3: "r3 = None" using fe assms(10) by simp
  have asst2: "windowOf ?q (storedHistory st2 (Some s1) (p_aiKey (req_panel req))
                             @ [\<lparr>role = ''assistant'', content = answer\<rparr>])
                 (storedHistory st3 (Some s1) (p_aiKey (req_panel req)))"
    using fe ex2 assms(10) by simp
  have asst: "windowOf ?q (storedHistory st1 (Some s1) (p_aiKey (req_panel req))
                             @ [\<lparr>role = ''assistant'', content = answer\<rparr>])
                 (storedHistory st3 (Some s1) (p_aiKey (req_panel req)))"
    using kept_windowOf [OF k12 asst2] .
  have k23: "kept ?q (storedHistory st2 (Some s2) k) (storedHistory st3 (Some s2) k)" for k
    using fe [of "Some s2" k] assms(4,10) by simp
  have k03: "kept ?q (storedHistory st0 (Some s2) k) (storedHistory st3 (Some s2) k)" for k
    using kept_trans [OF kept_trans [OF k01 k12] k23] .
  have exact: "neverQuota e \<longrightarrow>
            storedHistory st1 (Some s1) (req_aiKey req) =
              sliceLast 12 (storedHistory st0 (Some s1) (req_aiKey req) @
                              [\<lparr>role = ''user'', content = prompt\<rparr>]) \<and>
            storedHistory st3 (Some s1) (p_aiKey (req_panel req)) =
              sliceLast 12 (storedHistory st1 (Some s1) (p_aiKey (req_panel req)) @
                              [\<lparr>role = ''assistant'', content = answer\<rparr>]) \<and>
            (\<forall>k. storedHistory st3 (Some s2) k = storedHistory st0 (Some s2) k)"
    using user asst k03 by (auto simp: windowOf_def kept_def)
  show ?thesis
    using tgt p2 r3 windowOf_form [OF user] windowOf_form [OF asst] kept_forms [OF k03] exact
    by blast
qed

theorem response_goes_to_captured_session_witness:
  "req_target requestX = Some ''a'' \<and>
   storedHistory (fst (sendPromptToSelectedAIs env0 (Some ''hi'') [''x'', ''y''] webviewsXY storeAB))
     (Some ''a'') ''x'' = [msg ''hi''] \<and>
   storedHistory
     (snd (handleApiChat_finish env0 requestX (Response ''answer'')
        (snd (switchToSession env0 (Some ''draft'') ''b''
           (fst (sendPromptToSelectedAIs env0 (Some ''hi'') [''x'', ''y''] webviewsXY storeAB))))))
     (Some ''a'') ''x'' = [msg ''hi'', \<lparr>role = ''assistant'', content = ''answer''\<rparr>] \<and>
   storedHistory
     (snd (handleApiChat_finish env0 requestX (Response ''answer'')
        (snd (switchToSession env0 (Some ''draft'') ''b''
           (fst (sendPromptToSelectedAIs env0 (Some ''hi'') [''x'', ''y''] webviewsXY storeAB))))))
     (Some ''b'') ''x'' = [msg ''old'']"
proof -
  let ?S = "sendPromptToSelectedAIs env0 (Some ''hi'') [''x'', ''y''] webviewsXY storeAB"
  let ?W = "switchToSession env0 (Some ''draft'') ''b'' (fst ?S)"
  let ?F = "handleApiChat_finish env0 requestX (Response ''answer'') (snd ?W)"
  have cur: "currentSessionId storeAB = Some ''a''"
    by (simp add: storeAB_def store0_def)
  have ex: "sessionExists storeAB (Some ''a'')"
    by (simp add: sessionExists_def storeAB_def store0_def exampleSession_def)
  have h0: "storedHistory storeAB (Some ''a'') ''x'' = []"
           "storedHistory storeAB (Some ''b'') ''x'' = [msg ''old'']"
    by (simp_all add: storedHistory_def storeAB_def store0_def exampleSession_def)
  have mem: "requestX \<in> set (snd ?S)"
    by (simp add: chat_eval storeAB_def requestX_def)
  have pk: "p_aiKey (req_panel requestX) \<notin> set objectPrototypeKeys"
    by (simp add: requestX_def objectPrototypeKeys_def)
  have s: "?S = (fst ?S, snd ?S)" and w: "?W = (fst ?W, snd ?W)" and f: "?F = (fst ?F, snd ?F)"
    by simp_all
  show ?thesis
    using response_goes_to_captured_session
            [OF cur _ ex _ _ s mem pk w f]
    by (simp add: h0 neverQuota_env0 sliceLast_def requestX_def msg_def)
qed

section \<open>Properties of the resizer and the layout mode\<close>

subsection \<open>Dragging a divider\<close>







subsection \<open>Switching the layout mode\<close>

lemma forVisible_mode [simp]: "getCurrentLayoutMode (forVisible f pg) = getCurrentLayoutMode pg"
  by (simp add: getCurrentLayoutMode_def forVisible_def)

lemma clearSizes_storage:
  "sizeStorage (clearSizes pg) = (sizeStorage pg)(getStorageKey pg := None)"
  by (simp add: clearSizes_def Let_def forVisible_def split: option.splits)

lemma clearSizes_mode: "getCurrentLayoutMode (clearSizes pg) = getCurrentLayoutMode pg"
  by (simp add: clearSizes_def Let_def forVisible_def getCurrentLayoutMode_def split: option.splits)

lemma clearSizes_key: "getStorageKey (clearSizes pg) = getStorageKey pg"
  by (simp add: getStorageKey_def clearSizes_mode)

lemma clearSizes_wrappers:
  "wrappers (clearSizes pg) =
     map (\<lambda>w. if isVisible w then w\<lparr>w_flex := None, w_minWidth := [], w_minHeight := []\<rparr> else w)
       (wrappers pg)"
  by (simp add: clearSizes_def Let_def forVisible_def split: option.splits)

lemma clearSizes_grid:
  "grid (clearSizes pg) =
     map_option (\<lambda>g. g\<lparr>gridTemplateColumns := [], gridTemplateRows := []\<rparr>) (grid pg)"
  by (simp add: clearSizes_def Let_def forVisible_def split: option.splits)

lemma restore_nothing_stored:
  "sizeStorage pg (getStorageKey pg) = None \<Longrightarrow> initResizers le pg = pg"
  by (simp add: initResizers_def restoreSizes_def restoreGridSizes_def Let_def truthy_def)

lemma applyLayoutMode_mode:
  "grid pg \<noteq> None \<Longrightarrow> md \<in> set LAYOUT_MODES \<Longrightarrow> getCurrentLayoutMode (applyLayoutMode md pg) = md"
  by (auto simp: applyLayoutMode_def getCurrentLayoutMode_def LAYOUT_MODES_def split: option.splits)

lemma applyLayoutMode_frame:
  "sizeStorage (applyLayoutMode md pg) = sizeStorage pg"
  "wrappers (applyLayoutMode md pg) = wrappers pg"
  by (simp_all add: applyLayoutMode_def split: option.splits)

lemma setLayoutMode_unfold:
  "setLayoutMode True md pg =
     clearSizes (applyLayoutMode (effectiveMode md)
       (pg\<lparr>sizeStorage := (sizeStorage pg)(LAYOUT_STORAGE_KEY \<mapsto> effectiveMode md)\<rparr>))"
  by (simp add: setLayoutMode_def Let_def onLayoutModeChange_def)

lemma key_not_layout_key: "getStorageKey pg \<noteq> LAYOUT_STORAGE_KEY"
  by (simp add: getStorageKey_def STORAGE_KEY_PREFIX_def LAYOUT_STORAGE_KEY_def)

text \<open>
  C2, amended. Switching the layout mode removes the persisted size record of the
  newly active mode and leaves every other entry of the storage, the records of the
  other modes among them, unchanged (the layout-mode entry itself is set). The flex and
  minimum sizes of the visible wrappers and the grid templates are cleared, and the
  re-initialisation scheduled afterwards finds no record and changes nothing: the
  layout is the equal distribution.
\<close>

theorem layout_switch_resets_sizes:
  "sizeStorage (setLayoutMode True md pg) (getStorageKey (setLayoutMode True md pg)) = None \<and>
   (\<forall>k. k \<noteq> getStorageKey (setLayoutMode True md pg) \<and> k \<noteq> LAYOUT_STORAGE_KEY \<longrightarrow>
        sizeStorage (setLayoutMode True md pg) k = sizeStorage pg k) \<and>
   (grid pg \<noteq> None \<and> md \<in> set LAYOUT_MODES \<longrightarrow>
        getCurrentLayoutMode (setLayoutMode True md pg) = md) \<and>
   (\<forall>w \<in> set (wrappers (setLayoutMode True md pg)).
        isVisible w \<longrightarrow> w_flex w = None \<and> w_minWidth w = [] \<and> w_minHeight w = []) \<and>
   (\<forall>g. grid (setLayoutMode True md pg) = Some g \<longrightarrow>
        gridTemplateColumns g = [] \<and> gridTemplateRows g = []) \<and>
   onLayoutModeChange_later le (setLayoutMode True md pg) = setLayoutMode True md pg"
proof -
  let ?pg1 = "applyLayoutMode (effectiveMode md)
                (pg\<lparr>sizeStorage := (sizeStorage pg)(LAYOUT_STORAGE_KEY \<mapsto> effectiveMode md)\<rparr>)"
  have u: "setLayoutMode True md pg = clearSizes ?pg1" by (rule setLayoutMode_unfold)
  have k: "getStorageKey (clearSizes ?pg1) = getStorageKey ?pg1" by (rule clearSizes_key)
  have s: "sizeStorage (clearSizes ?pg1) = (sizeStorage ?pg1)(getStorageKey ?pg1 := None)"
    by (rule clearSizes_storage)
  have s1: "sizeStorage ?pg1 = (sizeStorage pg)(LAYOUT_STORAGE_KEY \<mapsto> effectiveMode md)"
    by (simp add: applyLayoutMode_frame)
  have a: "sizeStorage (clearSizes ?pg1) (getStorageKey (clearSizes ?pg1)) = None"
    by (simp add: s k)
  have b: "\<forall>k. k \<noteq> getStorageKey (clearSizes ?pg1) \<and> k \<noteq> LAYOUT_STORAGE_KEY \<longrightarrow>
        sizeStorage (clearSizes ?pg1) k = sizeStorage pg k"
    by (simp add: s k s1)
  have c: "grid pg \<noteq> None \<and> md \<in> set LAYOUT_MODES \<longrightarrow> getCurrentLayoutMode (clearSizes ?pg1) = md"
    by (auto simp: clearSizes_mode effectiveMode_def intro!: applyLayoutMode_mode)
  have d: "\<forall>w \<in> set (wrappers (clearSizes ?pg1)).
        isVisible w \<longrightarrow> w_flex w = None \<and> w_minWidth w = [] \<and> w_minHeight w = []"
    by (auto simp: clearSizes_wrappers isVisible_def)
  have e: "\<forall>g. grid (clearSizes ?pg1) = Some g \<longrightarrow>
        gridTemplateColumns g = [] \<and> gridTemplateRows g = []"
    by (auto simp: clearSizes_grid)
  have f: "onLayoutModeChange_later le (clearSizes ?pg1) = clearSizes ?pg1"
    unfolding onLayoutModeChange_later_def by (rule restore_nothing_stored) (rule a)
  show ?thesis unfolding u using a b c d e f by blast
qed

text \<open>
  C2, as stated: switching leaves every mode's persisted record unchanged and restores
  the new mode's record. It fails: with a record stored for the vertical mode, switching
  to vertical removes that record, and after the scheduled re-initialisation no wrapper
  has a flex ratio, although the stored record would give one.
\<close>

theorem layout_switch_removes_record:
  "sizeStorage (setLayoutMode True ''vertical'' page0) ''oneprompt-wrapper-sizes-vertical''
     \<noteq> sizeStorage page0 ''oneprompt-wrapper-sizes-vertical'' \<and>
   sizeStorage page0 ''oneprompt-wrapper-sizes-vertical'' = Some ''{x:2,y:1}'' \<and>
   map w_flex (wrappers (onLayoutModeChange_later lenv0 (setLayoutMode True ''vertical'' page0)))
     = [None, None]"
  by (simp add: setLayoutMode_def Let_def effectiveMode_def LAYOUT_MODES_def onLayoutModeChange_def clearSizes_def
      forVisible_def isVisible_def applyLayoutMode_def page0_def exampleWrapper_def
      getStorageKey_def getCurrentLayoutMode_def STORAGE_KEY_PREFIX_def LAYOUT_STORAGE_KEY_def
      onLayoutModeChange_later_def initResizers_def restoreSizes_def truthy_def)

theorem layout_switch_resets_sizes_witness:
  "sizeStorage (setLayoutMode True ''vertical'' page0) ''oneprompt-wrapper-sizes-vertical'' = None \<and>
   sizeStorage (setLayoutMode True ''vertical'' page0) ''oneprompt-wrapper-sizes-horizontal''
     = Some ''{x:3,y:1}'' \<and>
   getCurrentLayoutMode (setLayoutMode True ''vertical'' page0) = ''vertical'' \<and>
   map w_flex (wrappers (setLayoutMode True ''vertical'' page0)) = [None, None] \<and>
   onLayoutModeChange_later lenv0 (setLayoutMode True ''vertical'' page0)
     = setLayoutMode True ''vertical'' page0"
proof -
  have g: "grid page0 \<noteq> None \<and> ''vertical'' \<in> set LAYOUT_MODES"
    by (simp add: page0_def LAYOUT_MODES_def)
  have m: "getCurrentLayoutMode (setLayoutMode True ''vertical'' page0) = ''vertical''"
    using layout_switch_resets_sizes [of "''vertical''" page0 lenv0] g by blast
  have k: "getStorageKey (setLayoutMode True ''vertical'' page0) = ''oneprompt-wrapper-sizes-vertical''"
    by (simp add: getStorageKey_def m STORAGE_KEY_PREFIX_def)
  have v: "map isVisible (wrappers (setLayoutMode True ''vertical'' page0)) = [True, True]"
          "length (wrappers (setLayoutMode True ''vertical'' page0)) = 2"
    by (simp_all add: setLayoutMode_unfold clearSizes_wrappers applyLayoutMode_frame page0_def
        exampleWrapper_def isVisible_def)
  have h: "sizeStorage page0 ''oneprompt-wrapper-sizes-horizontal'' = Some ''{x:3,y:1}''"
    by (simp add: page0_def)
  have w: "map w_flex (wrappers (setLayoutMode True ''vertical'' page0)) = [None, None]"
    by (simp add: setLayoutMode_unfold clearSizes_wrappers applyLayoutMode_frame page0_def
        exampleWrapper_def isVisible_def)
  show ?thesis
    using layout_switch_resets_sizes [of "''vertical''" page0 lenv0] m h w
    by (simp add: k LAYOUT_STORAGE_KEY_def)
qed


section \<open>Properties of the panels\<close>

lemma cached_setCached:
  "cached (setCached sid key inst mx) sid' key' =
     (if sid' = sid \<and> key' = key then Some inst else cached mx sid' key')"
  by (auto simp: cached_def setCached_def AList.update_conv' split: option.splits)

lemma cached_frame [simp]:
  "cached (mx\<lparr>domWrappers := ws\<rparr>) sid key = cached mx sid key"
  "cached (mx\<lparr>nextInstance := n\<rparr>) sid key = cached mx sid key"
  by (simp_all add: cached_def)

lemma setCached_frame [simp]:
  "domWrappers (setCached sid key inst mx) = domWrappers mx"
  "nextInstance (setCached sid key inst mx) = nextInstance mx"
  by (simp_all add: setCached_def)

lemma kind_cases: "k = ApiPanel \<or> k = WebviewEl"
  by (cases k) auto

lemma find_append_new:
  "find P xs = None \<Longrightarrow> P x \<Longrightarrow> find P (xs @ [x]) = Some x"
  by (induction xs) (auto split: if_splits)

lemma find_updateFirst_const:
  "find P xs = Some w \<Longrightarrow> P w' \<Longrightarrow> find P (updateFirst P (\<lambda>_. w') xs) = Some w'"
  by (induction xs) (auto split: if_splits)

lemma find_isWrapperOf:
  "find (isWrapperOf sid key) ws = Some w \<Longrightarrow> isWrapperOf sid key w"
  by (auto simp: find_Some_iff)

text \<open>No cached instance and no wrapper: one is created for the mode.\<close>

lemma renderPanel_fresh:
  assumes "hasConfig key" and "findWrapper mx sid key = None" and "cached mx sid key = None"
  shows "cached (fst (renderPanel hasConfig sid md i key mx)) sid key =
           Some \<lparr>inst_id = nextInstance mx,
                 inst_kind = (if md = Some ''api'' then ApiPanel else WebviewEl),
                 inst_aiKey = key\<rparr>"
    and "panelInv (fst (renderPanel hasConfig sid md i key mx)) sid key"
    and "nextInstance (fst (renderPanel hasConfig sid md i key mx)) = nextInstance mx + 1"
  using assms
  by (auto simp: renderPanel_def createWrapper_def createInstance_def cached_setCached
      panelInv_def findWrapper_def find_append_new isWrapperOf_def)




lemma panelInv_cases:
  assumes "panelInv mx sid key"
  obtains (absent) "findWrapper mx sid key = None" "cached mx sid key = None"
        | (present) w c where "findWrapper mx sid key = Some w" "cached mx sid key = Some c"
                              "pw_content w = [c]" "inst_id c < nextInstance mx"
  using assms by (auto simp: panelInv_def split: option.splits)





lemma find_updateFirst_const_other:
  "(\<And>x. P x \<Longrightarrow> \<not> Q x) \<Longrightarrow> \<not> Q w' \<Longrightarrow> find Q (updateFirst P (\<lambda>_. w') xs) = find Q xs"
  by (induction xs) auto

lemma find_append_other: "\<not> Q x \<Longrightarrow> find Q (xs @ [x]) = find Q xs"
  by (induction xs) auto

lemma createWrapper_other_pair:
  assumes "(sid', key') \<noteq> (sid, key)"
  shows "findWrapper (createWrapper sid md i key mx) sid' key' = findWrapper mx sid' key'"
    and "cached (createWrapper sid md i key mx) sid' key' = cached mx sid' key'"
    and "nextInstance mx \<le> nextInstance (createWrapper sid md i key mx)"
  using assms
  by (auto simp: createWrapper_def createInstance_def findWrapper_def find_append_other
      isWrapperOf_def cached_setCached split: option.splits)

lemma replaceWrapper_other_pair:
  assumes "(sid', key') \<noteq> (sid, key)" and "isWrapperOf sid key w'"
  shows "find (isWrapperOf sid' key') (updateFirst (isWrapperOf sid key) (\<lambda>_. w') ws)
           = find (isWrapperOf sid' key') ws"
  by (rule find_updateFirst_const_other) (use assms in \<open>auto simp: isWrapperOf_def\<close>)

lemma showWrapper_other_pair:
  assumes "(sid', key') \<noteq> (sid, key)" and "isWrapperOf sid key w"
  shows "findWrapper (showWrapper sid md i key w mx) sid' key' = findWrapper mx sid' key'"
    and "cached (showWrapper sid md i key w mx) sid' key' = cached mx sid' key'"
    and "nextInstance mx \<le> nextInstance (showWrapper sid md i key w mx)"
proof -
  have r: "find (isWrapperOf sid' key')
             (updateFirst (isWrapperOf sid key)
                (\<lambda>_. w\<lparr>pw_display := d, pw_order := n, pw_content := cs, pw_textarea := t\<rparr>) ws)
           = find (isWrapperOf sid' key') ws" for d n cs t ws
    by (rule replaceWrapper_other_pair [OF assms(1)]) (use assms(2) in \<open>simp add: isWrapperOf_def\<close>)
  have r2: "find (isWrapperOf sid' key')
             (updateFirst (isWrapperOf sid key)
                (\<lambda>_. w\<lparr>pw_display := d, pw_order := n, pw_textarea := t\<rparr>) ws)
           = find (isWrapperOf sid' key') ws" for d n t ws
    by (rule replaceWrapper_other_pair [OF assms(1)]) (use assms(2) in \<open>simp add: isWrapperOf_def\<close>)
  show "findWrapper (showWrapper sid md i key w mx) sid' key' = findWrapper mx sid' key'"
    by (simp add: showWrapper_def Let_def createInstance_def findWrapper_def r r2)
  show "cached (showWrapper sid md i key w mx) sid' key' = cached mx sid' key'"
    using assms(1) by (auto simp: showWrapper_def Let_def createInstance_def cached_setCached)
  show "nextInstance mx \<le> nextInstance (showWrapper sid md i key w mx)"
    by (simp add: showWrapper_def Let_def createInstance_def)
qed

lemma renderPanel_other_pair:
  assumes "(sid', key') \<noteq> (sid, key)"
  shows "findWrapper (fst (renderPanel hasConfig sid md i key mx)) sid' key' = findWrapper mx sid' key'
         \<and> cached (fst (renderPanel hasConfig sid md i key mx)) sid' key' = cached mx sid' key'
         \<and> nextInstance mx \<le> nextInstance (fst (renderPanel hasConfig sid md i key mx))"
proof (cases "hasConfig key")
  case False
  then show ?thesis by (simp add: renderPanel_def findWrapper_def cached_def)
next
  case True
  show ?thesis
  proof (cases "findWrapper mx sid key")
    case None
    with True have "fst (renderPanel hasConfig sid md i key mx) = createWrapper sid md i key mx"
      by (simp add: renderPanel_def)
    then show ?thesis using createWrapper_other_pair [OF assms, where md = md and i = i and mx = mx] by simp
  next
    case (Some w)
    then have w: "isWrapperOf sid key w"
      by (auto simp: findWrapper_def dest: find_isWrapperOf)
    from True Some have "fst (renderPanel hasConfig sid md i key mx) = showWrapper sid md i key w mx"
      by (simp add: renderPanel_def)
    then show ?thesis using showWrapper_other_pair [OF assms w, where md = md and i = i and mx = mx] by simp
  qed
qed

lemma renderPanel_keeps_other_panels:
  assumes "panelInv mx sid' key'" and "(sid', key') \<noteq> (sid, key)"
  shows "panelInv (fst (renderPanel hasConfig sid md i key mx)) sid' key'"
  using assms(1) renderPanel_other_pair [OF assms(2), where hasConfig = hasConfig and md = md and i = i and mx = mx]
  by (auto simp: panelInv_def split: option.splits)

lemma renderPanel_inv_same:
  assumes "panelInv mx sid key"
  shows "panelInv (fst (renderPanel hasConfig sid md i key mx)) sid key"
proof (cases "hasConfig key")
  case False
  with assms show ?thesis by (auto simp: renderPanel_def panelInv_def findWrapper_def cached_def split: option.splits)
next
  case True
  from assms show ?thesis
  proof (cases rule: panelInv_cases)
    case absent
    show ?thesis
      by (rule renderPanel_fresh(2) [where hasConfig = hasConfig and key = key, OF True absent])
  next
    case (present w c)
    have iw: "isWrapperOf sid key w"
      using present(1) by (auto simp: findWrapper_def dest: find_isWrapperOf)
    show ?thesis
      using True present iw kind_cases [of "inst_kind c"]
      by (auto simp: renderPanel_def showWrapper_def Let_def panelInv_def findWrapper_def
          find_updateFirst_const isWrapperOf_def createInstance_def cached_setCached
          split: if_splits)
  qed
qed

lemma renderPanel_inv:
  assumes "panelInv mx sid' key'"
  shows "panelInv (fst (renderPanel hasConfig sid md i key mx)) sid' key'"
proof (cases "(sid', key') = (sid, key)")
  case True
  with assms show ?thesis by (simp add: renderPanel_inv_same)
next
  case False
  with assms show ?thesis by (rule renderPanel_keeps_other_panels)
qed

lemma renderSelected_inv:
  "(\<And>s k. panelInv mx s k) \<Longrightarrow> panelInv (renderSelected hasConfig sid md i keys mx) sid' key'"
proof (induction keys arbitrary: mx i)
  case Nil
  then show ?case by simp
next
  case (Cons k ks)
  obtain mx1 i1 where r: "renderPanel hasConfig sid md i k mx = (mx1, i1)"
    by (cases "renderPanel hasConfig sid md i k mx") auto
  have "\<And>s k'. panelInv mx1 s k'"
    using renderPanel_inv [where hasConfig = hasConfig and sid = sid and md = md and i = i
        and key = k and mx = mx] Cons.prems r by (metis fst_conv)
  then show ?case using Cons.IH [of mx1 i1] r by simp
qed

lemma panelInv_alt:
  "panelInv mx sid key =
     (case (map_option pw_content (findWrapper mx sid key), cached mx sid key) of
        (None, None) \<Rightarrow> True
      | (Some cs, Some c) \<Rightarrow> cs = [c] \<and> inst_id c < nextInstance mx
      | _ \<Rightarrow> False)"
  by (simp add: panelInv_def split: option.splits)

lemma find_updateFirst_content:
  assumes "\<And>x. Q (f x) = Q x" and "\<And>x. pw_content (f x) = pw_content x"
  shows "map_option pw_content (find Q (updateFirst P f xs)) = map_option pw_content (find Q xs)"
  using assms by (induction xs) auto

lemma hide_fold_content:
  "map_option pw_content
     (find (isWrapperOf sid key)
        (fold (\<lambda>(s, k). updateFirst (isWrapperOf s k) (\<lambda>w. w\<lparr>pw_display := ''none''\<rparr>)) ps ws))
   = map_option pw_content (find (isWrapperOf sid key) ws)"
proof (induction ps arbitrary: ws)
  case Nil
  then show ?case by simp
next
  case (Cons p ps)
  obtain s k where p: "p = (s, k)" by (cases p) auto
  have "map_option pw_content
          (find (isWrapperOf sid key)
             (updateFirst (isWrapperOf s k) (\<lambda>w. w\<lparr>pw_display := ''none''\<rparr>) ws))
        = map_option pw_content (find (isWrapperOf sid key) ws)"
    by (rule find_updateFirst_content) (simp_all add: isWrapperOf_def)
  then show ?case using Cons.IH by (simp add: p)
qed

lemma hideAll_inv: "panelInv (hideAll mx) sid key = panelInv mx sid key"
proof -
  have a: "map_option pw_content (findWrapper (hideAll mx) sid key)
             = map_option pw_content (findWrapper mx sid key)"
    by (simp add: findWrapper_def hideAll_def hide_fold_content)
  have b: "cached (hideAll mx) sid key = cached mx sid key"
    by (simp add: hideAll_def)
  have c: "nextInstance (hideAll mx) = nextInstance mx"
    by (simp add: hideAll_def)
  show ?thesis by (simp only: panelInv_alt a b c)
qed

lemma getSessionWebviews_inv:
  "panelInv (snd (getSessionWebviews s mx)) sid key = panelInv mx sid key"
  by (auto simp: getSessionWebviews_def panelInv_def findWrapper_def cached_def AList.update_conv'
      split: option.splits)

text \<open>
  The agreement of wrapper and cache holds on the empty page and is kept by every
  \<open>renderWebviews\<close>, for every session and service.
\<close>

lemma renderWebviews_inv:
  assumes "\<And>s k. panelInv mx s k"
  shows "panelInv (renderWebviews hasConfig sid md selected mx) sid' key'"
proof (cases "length selected = 0")
  case True
  then show ?thesis using assms by (simp add: renderWebviews_def hideAll_inv)
next
  case False
  have "\<And>s k. panelInv (snd (getSessionWebviews sid (hideAll mx))) s k"
    using assms by (simp add: getSessionWebviews_inv hideAll_inv)
  then show ?thesis using False by (simp add: renderWebviews_def renderSelected_inv)
qed


end
